theory Spec2Isabelle
  imports Complex_Main "HOL-Library.Multiset" "HOL-Library.Char_ord" "HOL-Library.List_Lexorder"
begin

section \<open>Common Python notions\<close>

text \<open>
  Exceptions are values. Every \<^verbatim>\<open>raise\<close> of the two scripts, and every exception that a
  library call of theirs raises on the inputs modelled here, is a branch that returns
  \<open>Inl\<close> of one of these.
\<close>

datatype py_error =
    TypeError
  | ValueError string
  | KeyError string
  | AttributeError string
  | ZeroDivisionError
  | AssertionError

text \<open>
  Strings are byte strings. \<^verbatim>\<open>str.upper\<close> and \<^verbatim>\<open>str.lower\<close> are modelled on the ASCII
  letters and leave every other byte alone.
\<close>

definition upper_char :: "char \<Rightarrow> char" where
  "upper_char c =
     (if CHR ''a'' \<le> c \<and> c \<le> CHR ''z'' then char_of (of_char c - (32::nat)) else c)"

definition lower_char :: "char \<Rightarrow> char" where
  "lower_char c =
     (if CHR ''A'' \<le> c \<and> c \<le> CHR ''Z'' then char_of (of_char c + (32::nat)) else c)"

definition upper :: "string \<Rightarrow> string" where
  "upper s = map upper_char s"

definition lower :: "string \<Rightarrow> string" where
  "lower s = map lower_char s"

text \<open>
  \<^verbatim>\<open>DataFrame.sort_values(by, ascending=False)\<close> on a list of (key, row) pairs, none of
  the keys missing. pandas reverses the rows, sorts them by ascending key and reverses the
  result, so that with a stable sort rows of equal key stay in the order of the input. Its
  default \<^verbatim>\<open>quicksort\<close> is stable on short tables only; no theorem below depends on the
  order among rows of equal key.
\<close>

definition sort_values_desc :: "('k::linorder \<times> 'a) list \<Rightarrow> 'a list" where
  "sort_values_desc kvs = map snd (rev (sort_key fst (rev kvs)))"

section \<open>update\_pages.py: the modulation plan\<close>

text \<open>
  A cell of the axis column: a number for the \<^verbatim>\<open>semitones\<close> and \<^verbatim>\<open>fifths\<close> axes,
  text for a free-text axis, and text again once a numeric axis has been transposed and
  turned into note names.
\<close>

datatype axis_val = Num int | Name string

text \<open>
  A row of the table handed to \<^verbatim>\<open>create_modulation_plan\<close>. \<open>Task\<close> is the row's value in
  the column selected by \<^verbatim>\<open>task_column\<close> (\<^verbatim>\<open>create_gantt\<close> renames that column to
  \<^verbatim>\<open>Task\<close>); \<open>Description\<close> stands for the optional further columns, which a row built by
  \<^verbatim>\<open>DataFrame.from_records\<close> from the four keys of the source does not have.
\<close>

record interval =
  Start :: rat
  Finish :: rat
  Resource :: string
  Task :: axis_val
  Description :: "string option"

text \<open>
  The four conversions imported from the \<^verbatim>\<open>ms3\<close> library are parameters. A key name from
  which no offset can be derived has offset \<open>None\<close>; adding it to the column raises.
\<close>

record ms3 =
  name2fifths :: "string \<Rightarrow> int option"
  fifths2name :: "int \<Rightarrow> string"
  name2pc :: "string \<Rightarrow> int option"
  midi2name :: "int \<Rightarrow> string"

text \<open>What \<^verbatim>\<open>create_gantt\<close> hands on to the plotting library.\<close>

record 'p chart =
  chart_data :: "interval list"
  chart_title :: string
  chart_colors :: "(string \<times> string) list"
  xaxis_title :: string
  yaxis_title :: string
  chart_shapes :: "'p list"

definition KEY_COLORS :: "(string \<times> string) list" where
  "KEY_COLORS =
     [(''applied'', ''rgb(228,26,28)''),
      (''local'', ''rgb(55,126,184)''),
      (''tonic of adjacent applied chord(s)'', ''rgb(77,175,74)'')]"

definition Y_AXIS :: string where
  "Y_AXIS = ''Tonicized keys''"

text \<open>The column read as integers; \<open>None\<close> when a cell holds text.\<close>

fun as_ints :: "axis_val list \<Rightarrow> int list option" where
  "as_ints [] = Some []"
| "as_ints (Num n # vs) = map_option ((#) n) (as_ints vs)"
| "as_ints (Name s # vs) = None"

text \<open>The record of lines 78 to 81 for one missing value \<open>m\<close>.\<close>

definition missing_record :: "int \<Rightarrow> interval" where
  "missing_record m =
     \<lparr>Start = 0, Finish = 0, Resource = ''local'', Task = Num m, Description = None\<rparr>"

text \<open>
  Lines 74 to 77: \<^verbatim>\<open>mi, ma\<close>, the clamp of \<^verbatim>\<open>mi\<close>, \<^verbatim>\<open>set(range(mi, ma))\<close> and its
  difference with the column. The values are listed in ascending order; the order Python
  iterates the set in does not reach the result, which is sorted.
\<close>

definition missing_values :: "int \<Rightarrow> int list \<Rightarrow> int list" where
  "missing_values v vs =
     (let mi = fold min vs v;
          ma = fold max vs v;
          mi = min 0 mi;
          complete = [mi..ma - 1]
      in filter (\<lambda>m. m \<notin> set (v # vs)) complete)"

text \<open>
  The sort key of line 87 for one row, \<^verbatim>\<open>S.str.upper()\<close>: the text in upper case, and
  missing (NaN) for a cell that is not text.
\<close>

definition text_key :: "interval \<Rightarrow> string option" where
  "text_key r = (case Task r of Name s \<Rightarrow> Some (upper s) | Num n \<Rightarrow> None)"

text \<open>
  Lines 72 to 87. On an empty table \<^verbatim>\<open>min()\<close> and \<^verbatim>\<open>max()\<close> are NaN and
  \<^verbatim>\<open>range(0, nan)\<close> raises TypeError; a numeric axis with a text cell raises TypeError
  in the comparisons. On a free-text axis a column of numbers only has no \<^verbatim>\<open>.str\<close>
  accessor; in a column that mixes text and numbers the rows without text have a missing
  key, and \<^verbatim>\<open>sort_values\<close> puts them last, in the order of the input.
\<close>

definition sort_and_fill_rows :: "string \<Rightarrow> interval list \<Rightarrow> py_error + interval list" where
  "sort_and_fill_rows task_column data =
     (if task_column = ''semitones'' \<or> task_column = ''fifths'' then
        (case as_ints (map Task data) of
           None \<Rightarrow> Inl TypeError
         | Some [] \<Rightarrow> Inl TypeError
         | Some (v # vs) \<Rightarrow>
             (let missing = missing_values v vs;
                  missing_data = map missing_record missing
              in Inr (sort_values_desc (zip (v # vs @ missing) (data @ missing_data)))))
      else if data \<noteq> [] \<and> list_all (\<lambda>r. text_key r = None) data then
        Inl (AttributeError ''str'')
      else
        Inr (sort_values_desc
               (List.map_filter (\<lambda>r. map_option (\<lambda>k. (k, r)) (text_key r)) data)
             @ filter (\<lambda>r. text_key r = None) data))"

text \<open>
  Lines 93 to 94 and 97 to 98: the column plus the tonic, then \<^verbatim>\<open>transform\<close> applying the
  name conversion to every cell.
\<close>

definition transpose_rows ::
  "int option \<Rightarrow> (int \<Rightarrow> string) \<Rightarrow> interval list \<Rightarrow> py_error + interval list" where
  "transpose_rows tonic x2name data =
     (case tonic of
        None \<Rightarrow> Inl TypeError
      | Some t \<Rightarrow>
          (case as_ints (map Task data) of
             None \<Rightarrow> Inl TypeError
           | Some vs \<Rightarrow>
               Inr (map (\<lambda>(r, v). r\<lparr>Task := Name (x2name (v + t))\<rparr>) (zip data vs))))"

text \<open>Lines 89 to 98.\<close>

definition apply_globalkey ::
  "ms3 \<Rightarrow> string \<Rightarrow> string \<Rightarrow> string option \<Rightarrow> interval list \<Rightarrow>
   py_error + (string \<times> interval list)" where
  "apply_globalkey lib task_column title globalkey data =
     (case globalkey of
        None \<Rightarrow> Inr (title, data)
      | Some gk \<Rightarrow>
          (let title = title @ '' ('' @ gk @ '')'' in
           if task_column = ''fifths'' then
             map_sum id (Pair title) (transpose_rows (name2fifths lib gk) (fifths2name lib) data)
           else if task_column = ''semitones'' then
             map_sum id (Pair title) (transpose_rows (name2pc lib gk) (midi2name lib) data)
           else Inr (title, data)))"

text \<open>
  \<^verbatim>\<open>create_gantt\<close>: the renamed table, the title, the colours, the layout entries and the
  shapes. A shape is the vertical line at one phrase end, kept as its position.
\<close>

definition create_gantt ::
  "interval list \<Rightarrow> string \<Rightarrow> (string \<times> string) list \<Rightarrow> string \<times> string \<Rightarrow>
   'p list option \<Rightarrow> 'p chart" where
  "create_gantt data title colors layout shapes =
     \<lparr>chart_data = data, chart_title = title, chart_colors = colors,
      xaxis_title = fst layout, yaxis_title = snd layout,
      chart_shapes = (case shapes of None \<Rightarrow> [] | Some ps \<Rightarrow> ps)\<rparr>"

definition create_modulation_plan ::
  "ms3 \<Rightarrow> interval list \<Rightarrow> string \<Rightarrow> bool \<Rightarrow> string \<Rightarrow> string option \<Rightarrow>
   'p list option \<Rightarrow> (string \<times> string) list option \<Rightarrow> py_error + 'p chart" where
  "create_modulation_plan lib data task_column sort_and_fill title globalkey phraseends colors =
     (case (if sort_and_fill then sort_and_fill_rows task_column data else Inr data) of
        Inl e \<Rightarrow> Inl e
      | Inr data1 \<Rightarrow>
          (case apply_globalkey lib task_column title globalkey data1 of
             Inl e \<Rightarrow> Inl e
           | Inr (title2, data2) \<Rightarrow>
               (let ytitle =
                      (if task_column = ''semitones'' \<or> task_column = ''fifths''
                       then Y_AXIS @ '' ('' @ task_column @ '')'' else Y_AXIS);
                    layout = (''Measures'', ytitle);
                    colors2 = (case colors of None \<Rightarrow> KEY_COLORS | Some cs \<Rightarrow> cs)
                in Inr (create_gantt data2 title2 colors2 layout phraseends))))"

subsection \<open>A stand-in for the library\<close>

text \<open>
  The theorems on the modulation plan hold for every instance of \<open>ms3\<close>. To run the model
  on concrete tables, this instance follows the usual conventions: a key name is a letter
  and its accidentals, the line of fifths has \<open>0 = C\<close>, \<open>1 = G\<close>, \<open>- 1 = F\<close>, and a pitch
  class is a number from 0 to 11.
\<close>

definition letter_fifths :: "char \<Rightarrow> int option" where
  "letter_fifths c =
     map_of [(CHR ''F'', - 1), (CHR ''C'', 0), (CHR ''G'', 1), (CHR ''D'', 2),
             (CHR ''A'', 3), (CHR ''E'', 4), (CHR ''B'', 5)] (upper_char c)"

definition sample_name2fifths :: "string \<Rightarrow> int option" where
  "sample_name2fifths s =
     (case s of
        [] \<Rightarrow> None
      | c # acc \<Rightarrow>
          map_option
            (\<lambda>f. f + 7 * (int (count_list acc (CHR ''#'')) - int (count_list acc (CHR ''b''))))
            (letter_fifths c))"

definition sample_fifths2name :: "int \<Rightarrow> string" where
  "sample_fifths2name f =
     (''FCGDAEB'' ! nat ((f + 1) mod 7)) #
     (if 0 \<le> (f + 1) div 7 then replicate (nat ((f + 1) div 7)) (CHR ''#'')
      else replicate (nat (- ((f + 1) div 7))) (CHR ''b''))"

definition sample_midi2name :: "int \<Rightarrow> string" where
  "sample_midi2name m =
     [''C'', ''C#/Db'', ''D'', ''D#/Eb'', ''E'', ''F'', ''F#/Gb'', ''G'', ''G#/Ab'', ''A'',
      ''A#/Bb'', ''B''] ! nat (m mod 12)"

definition ms3_sample :: ms3 where
  "ms3_sample =
     \<lparr>name2fifths = sample_name2fifths,
      fifths2name = sample_fifths2name,
      name2pc = (\<lambda>s. map_option (\<lambda>f. (7 * f) mod 12) (sample_name2fifths s)),
      midi2name = sample_midi2name\<rparr>"

text \<open>A row of an example table, with the given axis value.\<close>

definition ex_row :: "int \<Rightarrow> interval" where
  "ex_row n =
     \<lparr>Start = 1, Finish = 2, Resource = ''applied'', Task = Num n, Description = None\<rparr>"

text \<open>A table of two rows that differ in every field.\<close>

definition ex_intervals :: "interval list" where
  "ex_intervals =
     [\<lparr>Start = 1, Finish = 5 / 2, Resource = ''local'', Task = Num 2, Description = None\<rparr>,
      \<lparr>Start = 5 / 2, Finish = 4, Resource = ''applied'', Task = Num (- 1),
         Description = None\<rparr>]"

section \<open>update\_pages.py: phrase ends\<close>












subsection \<open>An instance for tables with exactly representable positions\<close>

text \<open>
  To run \<^verbatim>\<open>get_phraseends\<close> on a concrete table, this instance reads a time signature
  written as a decimal number or as two decimal numbers around a slash, and takes for a
  float the rational number it is. Its quotient and sum are the exact ones; they are what
  the floating-point operations return whenever the operands and the exact result are
  binary fractions of few digits (halves, quarters, eighths of small integers), and the
  instance is used on such tables only: the example below has no position such as a third,
  which floating-point arithmetic would round.
\<close>

definition digit_val :: "char \<Rightarrow> nat option" where
  "digit_val c =
     (if CHR ''0'' \<le> c \<and> c \<le> CHR ''9'' then Some (of_char c - of_char (CHR ''0'')) else None)"

definition parse_nat :: "string \<Rightarrow> nat option" where
  "parse_nat s =
     (if s = [] then None
      else map_option (foldl (\<lambda>acc d. 10 * acc + d) 0) (those (map digit_val s)))"






section \<open>concat\_metadata.py\<close>

subsection \<open>Cell values and the boolean converter\<close>

text \<open>
  A Python value as it occurs in a cell: text, a truth value, an integer, a null
  (\<^verbatim>\<open>pd.NA\<close>, NaN or \<^verbatim>\<open>None\<close>), or some other object, known by a number only.
\<close>

datatype pyval = VStr string | VBool bool | VInt int | VNull | VOther nat

definition BOOLEAN_COLUMNS :: "string list" where
  "BOOLEAN_COLUMNS = [''has_drumset'']"

text \<open>
  \<^verbatim>\<open>int2bool\<close>. Python's built-in \<^verbatim>\<open>int\<close> is the parameter \<open>py_int\<close>; it is \<open>None\<close> where
  \<^verbatim>\<open>int(s)\<close> raises, which the \<^verbatim>\<open>except Exception\<close> of line 45 catches whatever the
  exception is. No non-ASCII letter has one of the letters of the four words as its
  lower case, so lowering the ASCII letters decides the test of line 41 as \<^verbatim>\<open>str.lower\<close>
  does.
\<close>

definition int2bool :: "(pyval \<Rightarrow> int option) \<Rightarrow> pyval \<Rightarrow> pyval" where
  "int2bool py_int s =
     (if (case s of VStr t \<Rightarrow> lower t \<in> set [''t'', ''true'', ''f'', ''false''] | _ \<Rightarrow> False)
      then VBool (case s of VStr t \<Rightarrow> lower t \<in> set [''t'', ''true''] | _ \<Rightarrow> False)
      else (case py_int s of Some n \<Rightarrow> VBool (n \<noteq> 0) | None \<Rightarrow> s))"

text \<open>
  An instance of \<^verbatim>\<open>int\<close> for running the model: integers and truth values convert, text
  converts when it is an optional sign and decimal digits, nothing else does.
\<close>

definition sample_int :: "pyval \<Rightarrow> int option" where
  "sample_int v =
     (case v of
        VInt n \<Rightarrow> Some n
      | VBool b \<Rightarrow> Some (if b then 1 else 0)
      | VStr s \<Rightarrow>
          (if take 1 s = ''-'' then map_option (\<lambda>n. - int n) (parse_nat (drop 1 s))
           else if take 1 s = ''+'' then map_option int (parse_nat (drop 1 s))
           else map_option int (parse_nat s))
      | VNull \<Rightarrow> None
      | VOther k \<Rightarrow> None)"

subsection \<open>Files and output\<close>

text \<open>
  The state the script works on: the text files by path, what has been printed, and the
  table objects by reference (\<open>next_ref\<close> is the first reference not yet in use). A
  file's content is its text as Python's text layer presents it.
\<close>

type_synonym ref = nat

record 'i table =
  index :: "'i list"
  cols :: "(string \<times> pyval list) list"

record world =
  files :: "string \<Rightarrow> string option"
  stdout :: "string list"
  objects :: "ref \<Rightarrow> string table"
  next_ref :: ref

text \<open>\<^verbatim>\<open>f.readlines()\<close>: the text cut after every newline.\<close>

fun readlines_from :: "string \<Rightarrow> string \<Rightarrow> string list" where
  "readlines_from cur [] = (if cur = [] then [] else [cur])"
| "readlines_from cur (c # cs) =
     (if c = CHR 0x0A then (cur @ [c]) # readlines_from [] cs
      else readlines_from (cur @ [c]) cs)"

definition readlines :: "string \<Rightarrow> string list" where
  "readlines s = readlines_from [] s"

text \<open>\<^verbatim>\<open>pat in line\<close> on strings.\<close>

fun contains :: "string \<Rightarrow> string \<Rightarrow> bool" where
  "contains pat [] = (pat = [])"
| "contains pat (c # cs) = (take (length pat) (c # cs) = pat \<or> contains pat cs)"

text \<open>
  The loop of lines 118 to 123, as the text it writes: each line up to the first one
  with the marker, where it breaks; the \<^verbatim>\<open>else\<close> of the loop writes two newlines when no
  line made it break, which is also the case of no lines at all.
\<close>

fun write_lines :: "string list \<Rightarrow> string" where
  "write_lines [] = [CHR 0x0A, CHR 0x0A]"
| "write_lines (line # lines) =
     (if contains ''# Overview'' line then [] else line @ write_lines lines)"

definition write_md :: "string \<Rightarrow> string \<Rightarrow> world \<Rightarrow> world" where
  "write_md md_str md_path w =
     (let (msg, lines) =
            (case files w md_path of
               Some content \<Rightarrow> (''Updated'', readlines content)
             | None \<Rightarrow> (''Created'', []))
      in w\<lparr>files := (files w)(md_path \<mapsto> write_lines lines @ md_str),
            stdout := stdout w @ [msg @ '' '' @ md_path]\<rparr>)"

text \<open>A state with a README of four lines and a file of one line, for running the model.\<close>

definition ex_readme :: string where
  "ex_readme =
     ''# Corpus'' @ [CHR 0x0A] @ ''Some text.'' @ [CHR 0x0A] @
     ''## Overview'' @ [CHR 0x0A] @ ''old table'' @ [CHR 0x0A]"

definition ex_world :: world where
  "ex_world =
     \<lparr>files = [''out/README.md'' \<mapsto> ex_readme, ''out/NOTES.md'' \<mapsto> ''Notes'' @ [CHR 0x0A]],
      stdout = [],
      objects = (\<lambda>r. \<lparr>index = [], cols = []\<rparr>), next_ref = 0\<rparr>"

subsection \<open>Tables and the libraries behind them\<close>

text \<open>
  What the script asks of pandas, of the Markdown table writer and of Python that is
  not its own code is a parameter: \<open>int_conv\<close> is \<^verbatim>\<open>int\<close>; \<open>is_na_text\<close> says which texts
  \<^verbatim>\<open>read_csv\<close> reads as missing; \<open>astype_boolean_Int64\<close> is
  \<^verbatim>\<open>astype('boolean').astype('Int64')\<close> on a column (\<open>None\<close> where it raises TypeError);
  \<open>to_csv\<close> is the text that \<^verbatim>\<open>to_csv(sep='\t', index=True)\<close> writes; \<open>markdown_table\<close>
  is \<^verbatim>\<open>str(df2md(df))\<close> from the header and the rows; \<open>type_repr\<close> prints the type of a
  value.
\<close>

record pylib =
  int_conv :: "pyval \<Rightarrow> int option"
  is_na_text :: "string \<Rightarrow> bool"
  astype_boolean_Int64 :: "pyval list \<Rightarrow> pyval list option"
  to_csv :: "string table \<Rightarrow> string"
  markdown_table :: "string list \<Rightarrow> pyval list list \<Rightarrow> string"
  type_repr :: "pyval \<Rightarrow> string"

text \<open>
  A \<^verbatim>\<open>metadata.tsv\<close> as it stands in the file: its columns in order, each a name and the
  texts of its fields. The root directory is the list of its immediate child
  directories, each with its \<^verbatim>\<open>metadata.tsv\<close> if it has one.
\<close>

type_synonym raw_tsv = "(string \<times> string list) list"

type_synonym root_dir = "(string \<times> raw_tsv option) list"

definition columns :: "'i table \<Rightarrow> string list" where
  "columns df = map fst (cols df)"

text \<open>\<^verbatim>\<open>df.loc[:, name] = values\<close> on a column the table has.\<close>

definition set_column :: "string \<Rightarrow> pyval list \<Rightarrow> 'i table \<Rightarrow> 'i table" where
  "set_column name vals df =
     df\<lparr>cols := map (\<lambda>(n, vs). if n = name then (n, vals) else (n, vs)) (cols df)\<rparr>"

text \<open>
  Line 59, \<^verbatim>\<open>read_csv(tsv_path, sep='\t', dtype='string', converters=converters)\<close>: the
  fields of a boolean column go through \<^verbatim>\<open>int2bool\<close> as the texts they are, and a text
  that the converter hands back is a null when it is one of the texts pandas reads as
  missing, such as the empty one; the fields of every other column become strings or
  nulls, and the index is the row numbers. A file without a header line raises
  \<^verbatim>\<open>EmptyDataError\<close>, a \<^verbatim>\<open>ValueError\<close>.
\<close>

definition read_csv :: "pylib \<Rightarrow> raw_tsv \<Rightarrow> py_error + nat table" where
  "read_csv lib raw =
     (case raw of
        [] \<Rightarrow> Inl (ValueError ''No columns to parse from file'')
      | (name0, texts0) # _ \<Rightarrow>
          Inr \<lparr>index = [0..<length texts0],
               cols =
                 map (\<lambda>(name, texts).
                        (name,
                         if name \<in> set BOOLEAN_COLUMNS
                         then map (\<lambda>t. case int2bool (int_conv lib) (VStr t) of
                                        VStr u \<Rightarrow> if is_na_text lib u then VNull else VStr u
                                      | v \<Rightarrow> v) texts
                         else map (\<lambda>t. if is_na_text lib t then VNull else VStr t) texts))
                   raw\<rparr>)"

text \<open>Lines 50 to 55: the child directories in sorted order that have the file.\<close>

definition found_tsvs :: "root_dir \<Rightarrow> (string \<times> raw_tsv) list" where
  "found_tsvs rdir =
     List.map_filter (\<lambda>(subdir, tsv). map_option (Pair subdir) tsv) (sort_key fst rdir)"

text \<open>The list comprehension of line 59; the first file that cannot be read raises.\<close>

fun read_all :: "pylib \<Rightarrow> (string \<times> raw_tsv) list \<Rightarrow> py_error + (string \<times> nat table) list" where
  "read_all lib [] = Inr []"
| "read_all lib ((key, raw) # rest) =
     (case read_csv lib raw of
        Inl e \<Rightarrow> Inl e
      | Inr df \<Rightarrow>
          (case read_all lib rest of
             Inl e \<Rightarrow> Inl e
           | Inr dfs \<Rightarrow> Inr ((key, df) # dfs)))"

text \<open>The elements of a list in the order of their first occurrence.\<close>

definition unique_in_order :: "'a list \<Rightarrow> 'a list" where
  "unique_in_order xs = rev (remdups (rev xs))"

text \<open>
  \<^verbatim>\<open>pd.concat(dfs, keys=keys)\<close>: the rows of the tables one after the other, each indexed
  by its key and its old row number; the columns are those of any table, in the order
  they first occur, with nulls where a table lacks one. pandas raises AssertionError
  when the indexes of the tables differ in their number of levels; the tables that
  \<^verbatim>\<open>read_csv\<close> returns all have the plain row numbers as index, so lines 62 to 65 are not
  reached from line 59 and have no branch here.
\<close>

definition column_or_nulls :: "string \<Rightarrow> 'i table \<Rightarrow> pyval list" where
  "column_or_nulls name df =
     (case map_of (cols df) name of
        Some vs \<Rightarrow> vs
      | None \<Rightarrow> replicate (length (index df)) VNull)"

definition pd_concat :: "(string \<times> nat table) list \<Rightarrow> (string \<times> nat) table" where
  "pd_concat kdfs =
     \<lparr>index = concat (map (\<lambda>(key, df). map (Pair key) (index df)) kdfs),
      cols =
        map (\<lambda>name. (name, concat (map (\<lambda>(key, df). column_or_nulls name df) kdfs)))
          (unique_in_order (concat (map (\<lambda>(key, df). columns df) kdfs)))\<rparr>"

text \<open>\<^verbatim>\<open>os.path.join(a, b)\<close> of \<^verbatim>\<open>posixpath\<close>, and its use on a cell, which must be text.\<close>

definition path_join :: "string \<Rightarrow> string \<Rightarrow> string" where
  "path_join a b =
     (if take 1 b = ''/'' then b
      else if a = [] \<or> last a = CHR ''/'' then a @ b
      else a @ ''/'' @ b)"

definition join_cell :: "string \<Rightarrow> pyval \<Rightarrow> pyval option" where
  "join_cell corpus v = (case v of VStr rel_path \<Rightarrow> Some (VStr (path_join corpus rel_path)) | _ \<Rightarrow> None)"

text \<open>
  Lines 70 to 71 and 73 to 74: the new values of a path column, TypeError when a cell
  is not text.
\<close>

definition rewrite_paths :: "string \<Rightarrow> (string \<times> nat) table \<Rightarrow> py_error + (string \<times> nat) table" where
  "rewrite_paths name concatenated =
     (case those (map (\<lambda>(corpus, rel_path). join_cell corpus rel_path)
                   (zip (map fst (index concatenated)) (column_or_nulls name concatenated))) of
        None \<Rightarrow> Inl TypeError
      | Some rel_paths \<Rightarrow> Inr (set_column name rel_paths concatenated))"

definition rel_path_message :: string where
  "rel_path_message =
     ''Metadata is expected to come with a column called '' @ [CHR 0x27] @ ''subdirectory'' @
     [CHR 0x27] @ '' or (previously) '' @ [CHR 0x27] @ ''rel_paths'' @ [CHR 0x27] @ ''.''"

definition concat_metadata :: "pylib \<Rightarrow> root_dir \<Rightarrow> py_error + string table" where
  "concat_metadata lib rdir =
     (if found_tsvs rdir = [] then Inr \<lparr>index = [], cols = []\<rparr>
      else
        (case read_all lib (found_tsvs rdir) of
           Inl e \<Rightarrow> Inl e
         | Inr kdfs \<Rightarrow>
             (let concatenated = pd_concat kdfs in
              case find (\<lambda>col. col \<in> set (columns concatenated)) [''subdirectory'', ''rel_paths''] of
                None \<Rightarrow> Inl (ValueError rel_path_message)
              | Some rel_path_col \<Rightarrow>
                  (case rewrite_paths rel_path_col concatenated of
                     Inl e \<Rightarrow> Inl e
                   | Inr c1 \<Rightarrow>
                       (case (if ''rel_path'' \<in> set (columns c1)
                              then rewrite_paths ''rel_path'' c1 else Inr c1) of
                          Inl e \<Rightarrow> Inl e
                        | Inr c2 \<Rightarrow> Inr \<lparr>index = map fst (index c2), cols = cols c2\<rparr>)))))"

text \<open>A table is well formed when every column has one cell per row.\<close>

definition wf_table :: "'i table \<Rightarrow> bool" where
  "wf_table df \<longleftrightarrow> list_all (\<lambda>c. length (snd c) = length (index df)) (cols df)"

subsection \<open>The Markdown overview\<close>

definition fname_message :: string where
  "fname_message =
     ''Metadata is expected to come with a column called '' @ [CHR 0x27] @ ''fname'' @
     [CHR 0x27] @ '' or (previously) '' @ [CHR 0x27] @ ''fnames'' @ [CHR 0x27] @ ''.''"

definition rename4markdown :: "string \<Rightarrow> (string \<times> string) list" where
  "rename4markdown fname_col =
     [(fname_col, ''file_name''), (''last_mn'', ''measures''), (''label_count'', ''labels''),
      (''harmony_version'', ''standard'')]"

text \<open>\<^verbatim>\<open>df.rename(columns=mapping)\<close>.\<close>

definition rename_columns :: "(string \<times> string) list \<Rightarrow> 'i table \<Rightarrow> 'i table" where
  "rename_columns mapping df =
     df\<lparr>cols := map (\<lambda>(n, vs). (case map_of mapping n of Some n' \<Rightarrow> n' | None \<Rightarrow> n, vs)) (cols df)\<rparr>"

text \<open>\<^verbatim>\<open>fillna('')\<close> on one cell.\<close>

definition fillna_empty :: "pyval \<Rightarrow> pyval" where
  "fillna_empty v = (case v of VNull \<Rightarrow> VStr [] | _ \<Rightarrow> v)"

text \<open>
  The rows of one group of \<^verbatim>\<open>groupby(level=0)\<close>, over the selected columns, nulls filled:
  the \<^verbatim>\<open>value_matrix\<close> of \<^verbatim>\<open>df2md\<close>.
\<close>

definition group_rows :: "string list \<Rightarrow> pyval list list \<Rightarrow> string \<Rightarrow> pyval list list" where
  "group_rows idx selected corpus_name =
     map (\<lambda>i. map (\<lambda>vs. fillna_empty (vs ! i)) selected)
       (filter (\<lambda>i. idx ! i = corpus_name) [0..<length idx])"

text \<open>
  \<^verbatim>\<open>metadata2markdown\<close>. Selecting the four renamed columns raises KeyError when one is
  not there; the groups come in the sorted order of their names. The column names are
  taken to be distinct after the renaming.
\<close>

definition metadata2markdown :: "pylib \<Rightarrow> string table \<Rightarrow> py_error + string" where
  "metadata2markdown lib concatenated =
     (case find (\<lambda>col. col \<in> set (columns concatenated)) [''fname'', ''fnames''] of
        None \<Rightarrow> Inl (ValueError fname_message)
      | Some fname_col \<Rightarrow>
          (let renamed = rename_columns (rename4markdown fname_col) concatenated;
               header = map snd (rename4markdown fname_col)
           in case those (map (map_of (cols renamed)) header) of
                None \<Rightarrow> Inl (KeyError ''not in index'')
              | Some selected \<Rightarrow>
                  Inr (''## Overview'' @
                       concat
                         (map (\<lambda>corpus_name.
                                 [CHR 0x0A, CHR 0x0A] @ ''### '' @ corpus_name @ [CHR 0x0A, CHR 0x0A] @
                                 markdown_table lib header
                                   (group_rows (index renamed) selected corpus_name))
                            (sort (remdups (index renamed)))))))"

subsection \<open>Writing the TSV\<close>

definition is_null :: "pyval \<Rightarrow> bool" where
  "is_null v = (case v of VNull \<Rightarrow> True | _ \<Rightarrow> False)"

text \<open>What \<^verbatim>\<open>print\<close> shows of a list, given what it shows of the elements.\<close>

fun comma_separated :: "string list \<Rightarrow> string" where
  "comma_separated [] = []"
| "comma_separated [x] = x"
| "comma_separated (x # y # ys) = x @ '', '' @ comma_separated (y # ys)"

definition list_repr :: "string list \<Rightarrow> string" where
  "list_repr xs = ''['' @ comma_separated xs @ '']''"

text \<open>
  The loop of lines 135 to 157 on the copy at reference \<open>r\<close>: a column of nulls only is
  skipped; a column that does not convert raises TypeError after the two prints; a
  converted column replaces the old one.
\<close>

fun convert_loop :: "pylib \<Rightarrow> ref \<Rightarrow> string list \<Rightarrow> world \<Rightarrow> (py_error + ref option) \<times> world" where
  "convert_loop lib r [] w = (Inr (Some r), w)"
| "convert_loop lib r (bc # bcs) w =
     (case map_of (cols (objects w r)) bc of
        None \<Rightarrow> (Inl (KeyError bc), w)
      | Some vals \<Rightarrow>
          if list_all is_null vals then convert_loop lib r bcs w
          else
            (case astype_boolean_Int64 lib vals of
               None \<Rightarrow>
                 (Inl TypeError,
                  w\<lparr>stdout := stdout w @
                     [''COLUMN '' @ [CHR 0x27] @ bc @ [CHR 0x27],
                      list_repr (map (type_repr lib) vals)]\<rparr>)
             | Some ints \<Rightarrow>
                 convert_loop lib r bcs
                   (w\<lparr>objects := (objects w)(r := set_column bc ints (objects w r)),
                      stdout := stdout w @
                        [''Transformed booleans in the column '' @ bc @ '' to integers.'']\<rparr>)))"

text \<open>
  \<^verbatim>\<open>convert_booleans\<close>. The argument is a reference to a table or \<^verbatim>\<open>None\<close>; \<^verbatim>\<open>df.copy()\<close>
  puts a copy at a new reference, and the loop works on that.
\<close>

definition convert_booleans ::
  "pylib \<Rightarrow> ref option \<Rightarrow> string list \<Rightarrow> world \<Rightarrow> (py_error + ref option) \<times> world" where
  "convert_booleans lib df bool_columns w =
     (case df of
        None \<Rightarrow> (Inr None, w)
      | Some r \<Rightarrow>
          (let boolean_columns = filter (\<lambda>c. c \<in> set (columns (objects w r))) bool_columns in
           if length boolean_columns = 0 then (Inr (Some r), w)
           else
             (let r' = next_ref w;
                  w' = w\<lparr>objects := (objects w)(r' := objects w r), next_ref := Suc r'\<rparr>
              in convert_loop lib r' boolean_columns w')))"

definition write_tsv :: "pylib \<Rightarrow> ref \<Rightarrow> string \<Rightarrow> world \<Rightarrow> (py_error + unit) \<times> world" where
  "write_tsv lib df tsv_path w =
     (case convert_booleans lib (Some df) BOOLEAN_COLUMNS w of
        (Inl e, w') \<Rightarrow> (Inl e, w')
      | (Inr None, w') \<Rightarrow> (Inl (AttributeError ''to_csv''), w')
      | (Inr (Some r), w') \<Rightarrow>
          (Inr (),
           w'\<lparr>files := (files w')(tsv_path \<mapsto> to_csv lib (objects w' r)),
              stdout := stdout w' @ [''Concatenated metadata written to '' @ tsv_path @ ''.'']\<rparr>))"

subsection \<open>The main routine\<close>

text \<open>
  \<^verbatim>\<open>main\<close>, with \<^verbatim>\<open>args.dir\<close> as its path (for the message) and its listing, and
  \<^verbatim>\<open>args.out\<close>. The concatenated table becomes an object of the state, since
  \<^verbatim>\<open>write_tsv\<close> and \<^verbatim>\<open>metadata2markdown\<close> are both handed the same one.
\<close>

definition main :: "pylib \<Rightarrow> string \<Rightarrow> root_dir \<Rightarrow> string \<Rightarrow> world \<Rightarrow> (py_error + unit) \<times> world" where
  "main lib dir rdir out w =
     (case concat_metadata lib rdir of
        Inl e \<Rightarrow> (Inl e, w)
      | Inr concatenated \<Rightarrow>
          if length (index concatenated) = 0 then
            (Inr (),
             w\<lparr>stdout := stdout w @
                [''No metadata found in the child directories of '' @ dir @ ''.'']\<rparr>)
          else
            (let r = next_ref w;
                 w1 = w\<lparr>objects := (objects w)(r := concatenated), next_ref := Suc r\<rparr>;
                 tsv_path = path_join out ''concatenated_metadata.tsv''
             in case write_tsv lib r tsv_path w1 of
                  (Inl e, w2) \<Rightarrow> (Inl e, w2)
                | (Inr u, w2) \<Rightarrow>
                    (case metadata2markdown lib (objects w2 r) of
                       Inl e \<Rightarrow> (Inl e, w2)
                     | Inr md_str \<Rightarrow>
                         (Inr (), write_md md_str (path_join out ''README.md'') w2))))"

subsection \<open>An instance of the libraries and a root directory\<close>

text \<open>
  For running the model: texts are missing when empty, a column of truth values and
  nulls converts to ones, zeros and nulls and no other column converts, and the two
  renderers write one line per row.
\<close>

definition sample_astype :: "pyval list \<Rightarrow> pyval list option" where
  "sample_astype vals =
     those (map (\<lambda>v. case v of
                        VBool b \<Rightarrow> Some (VInt (if b then 1 else 0))
                      | VNull \<Rightarrow> Some VNull
                      | _ \<Rightarrow> None) vals)"

definition sample_text :: "pyval \<Rightarrow> string" where
  "sample_text v =
     (case v of
        VStr s \<Rightarrow> s
      | VBool b \<Rightarrow> (if b then ''True'' else ''False'')
      | VInt n \<Rightarrow> (if n = 0 then ''0'' else if n = 1 then ''1'' else ''n'')
      | VNull \<Rightarrow> []
      | VOther k \<Rightarrow> ''?'')"

definition sample_line :: "string list \<Rightarrow> string" where
  "sample_line texts = concat (map (\<lambda>t. t @ [CHR 0x09]) texts) @ [CHR 0x0A]"

definition sample_to_csv :: "string table \<Rightarrow> string" where
  "sample_to_csv df =
     sample_line (''corpus'' # columns df) @
     concat (map (\<lambda>i. sample_line (index df ! i # map (\<lambda>(n, vs). sample_text (vs ! i)) (cols df)))
               [0..<length (index df)])"

definition sample_markdown :: "string list \<Rightarrow> pyval list list \<Rightarrow> string" where
  "sample_markdown header rows =
     sample_line header @ concat (map (\<lambda>row. sample_line (map sample_text row)) rows)"

definition sample_type :: "pyval \<Rightarrow> string" where
  "sample_type v =
     (case v of
        VStr s \<Rightarrow> ''str'' | VBool b \<Rightarrow> ''bool'' | VInt n \<Rightarrow> ''int'' | VNull \<Rightarrow> ''float''
      | VOther k \<Rightarrow> ''object'')"

definition sample_pylib :: pylib where
  "sample_pylib =
     \<lparr>int_conv = sample_int, is_na_text = (\<lambda>t. t = []),
      astype_boolean_Int64 = sample_astype, to_csv = sample_to_csv,
      markdown_table = sample_markdown, type_repr = sample_type\<rparr>"

definition ex_root :: root_dir where
  "ex_root =
     [(''b'',
       Some [(''fname'', [''x'', ''y'']),
             (''subdirectory'', [''MS3'', ''MS3/old'']),
             (''rel_path'', [''MS3/x.mscx'', ''MS3/old/y.mscx'']),
             (''has_drumset'', [''1'', ''F'']),
             (''last_mn'', [''10'', ''20'']),
             (''label_count'', [''5'', '''']),
             (''harmony_version'', [''2.3.0'', ''2.3.0''])]),
      (''c'', None),
      (''a'',
       Some [(''fname'', [''z'']),
             (''subdirectory'', [''scores'']),
             (''rel_path'', [''scores/z.mscx'']),
             (''last_mn'', [''7'']),
             (''label_count'', [''0'']),
             (''harmony_version'', [''2.3.0''])])]"

text \<open>A table with a boolean column and a column of nulls, and a state that holds it.\<close>

definition ex_table :: "string table" where
  "ex_table =
     \<lparr>index = [''a'', ''b'', ''b''],
      cols =
        [(''fname'', [VStr ''z'', VStr ''x'', VStr ''y'']),
         (''has_drumset'', [VNull, VBool True, VBool False]),
         (''comment'', [VNull, VNull, VNull])]\<rparr>"

definition ex_heap :: world where
  "ex_heap = \<lparr>files = Map.empty, stdout = [], objects = (\<lambda>r. ex_table), next_ref = 1\<rparr>"

text \<open>Two roots of one directory each: one without a path column, one without a file name column.\<close>

definition ex_root_nopath :: root_dir where
  "ex_root_nopath = [(''a'', Some [(''fname'', [''z''])])]"

definition ex_root_nofname :: root_dir where
  "ex_root_nofname = [(''a'', Some [(''subdirectory'', [''scores''])])]"

text \<open>The tables read from \<open>ex_root\<close> and the table aggregated from them.\<close>

definition ex_kdfs :: "(string \<times> nat table) list" where
  "ex_kdfs =
     [(''a'',
       \<lparr>index = [0],
        cols =
          [(''fname'', [VStr ''z'']),
           (''subdirectory'', [VStr ''scores'']),
           (''rel_path'', [VStr ''scores/z.mscx'']),
           (''last_mn'', [VStr ''7'']),
           (''label_count'', [VStr ''0'']),
           (''harmony_version'', [VStr ''2.3.0''])]\<rparr>),
      (''b'',
       \<lparr>index = [0, 1],
        cols =
          [(''fname'', [VStr ''x'', VStr ''y'']),
           (''subdirectory'', [VStr ''MS3'', VStr ''MS3/old'']),
           (''rel_path'', [VStr ''MS3/x.mscx'', VStr ''MS3/old/y.mscx'']),
           (''has_drumset'', [VBool True, VBool False]),
           (''last_mn'', [VStr ''10'', VStr ''20'']),
           (''label_count'', [VStr ''5'', VNull]),
           (''harmony_version'', [VStr ''2.3.0'', VStr ''2.3.0''])]\<rparr>)]"

definition ex_agg :: "string table" where
  "ex_agg =
     \<lparr>index = [''a'', ''b'', ''b''],
      cols =
        [(''fname'', [VStr ''z'', VStr ''x'', VStr ''y'']),
         (''subdirectory'', [VStr ''a/scores'', VStr ''b/MS3'', VStr ''b/MS3/old'']),
         (''rel_path'',
          [VStr ''a/scores/z.mscx'', VStr ''b/MS3/x.mscx'', VStr ''b/MS3/old/y.mscx'']),
         (''last_mn'', [VStr ''7'', VStr ''10'', VStr ''20'']),
         (''label_count'', [VStr ''0'', VStr ''5'', VNull]),
         (''harmony_version'', [VStr ''2.3.0'', VStr ''2.3.0'', VStr ''2.3.0'']),
         (''has_drumset'', [VNull, VBool True, VBool False])]\<rparr>"

section \<open>Properties of the modulation plan\<close>

subsection \<open>The axis column and the sort\<close>

lemma as_ints_Some_iff: "as_ints xs = Some vs \<longleftrightarrow> xs = map Num vs"
proof (induction xs arbitrary: vs rule: as_ints.induct)
  case 1
  then show ?case by auto
next
  case (2 n vs')
  then show ?case by (cases vs) auto
next
  case (3 s vs')
  then show ?case by (cases vs) auto
qed

lemma fold_min_Min: "fold min vs (v::int) = Min (set (v # vs))"
  by (metis Min.set_eq_fold)

lemma fold_max_Max: "fold max vs (v::int) = Max (set (v # vs))"
  by (metis Max.set_eq_fold)

lemma distinct_missing_values: "distinct (missing_values v vs)"
  by (simp add: missing_values_def Let_def)

text \<open>
  \<^verbatim>\<open>range(mi, ma)\<close> stops before \<^verbatim>\<open>ma\<close>; \<^verbatim>\<open>ma\<close> occurs in the column, so the missing
  values are those of the closed range as well.
\<close>

lemma set_missing_values:
  "set (missing_values v vs) =
     {m. min 0 (Min (set (v # vs))) \<le> m \<and> m \<le> Max (set (v # vs)) \<and> m \<notin> set (v # vs)}"
proof -
  have "Max (set (v # vs)) \<in> set (v # vs)"
    by (rule Max_in) auto
  then have "\<And>m. m \<notin> set (v # vs) \<Longrightarrow>
               m \<le> Max (set (v # vs)) - 1 \<longleftrightarrow> m \<le> Max (set (v # vs))"
    by (metis diff_add_cancel order_le_less zle_add1_eq_le)
  then show ?thesis
    unfolding missing_values_def Let_def fold_min_Min fold_max_Max
    by auto
qed

lemma mset_sort_values_desc:
  assumes len: "length ks = length xs"
  shows "mset (sort_values_desc (zip ks xs)) = mset xs"
proof -
  have "mset (sort_values_desc (zip ks xs)) = image_mset snd (mset (zip ks xs))"
    by (simp add: sort_values_desc_def)
  also have "\<dots> = mset (map snd (zip ks xs))" by simp
  also have "\<dots> = mset xs" using len by simp
  finally show ?thesis .
qed

lemma keys_sort_values_desc:
  assumes "\<forall>(k, r) \<in> set kvs. f r = g k"
  shows "map f (sort_values_desc kvs) = map g (rev (map fst (sort_key fst (rev kvs))))"
proof -
  have "\<forall>(k, r) \<in> set (rev (sort_key fst (rev kvs))). f r = g k" using assms by simp
  then have "map f (map snd (rev (sort_key fst (rev kvs)))) =
             map g (map fst (rev (sort_key fst (rev kvs))))"
    by (auto simp: case_prod_unfold)
  then show ?thesis by (simp add: sort_values_desc_def rev_map)
qed

lemma sort_and_fill_rows_numeric:
  assumes tc: "task_column = ''semitones'' \<or> task_column = ''fifths''"
    and col: "map Task data = map Num (v # vs)"
  shows "sort_and_fill_rows task_column data =
           Inr (sort_values_desc (zip (v # vs @ missing_values v vs)
                  (data @ map missing_record (missing_values v vs))))"
proof -
  have "as_ints (map Task data) = Some (v # vs)"
    using col by (simp only: as_ints_Some_iff)
  then show ?thesis
    using tc by (simp add: sort_and_fill_rows_def Let_def)
qed

lemma filled_pairs_agree:
  assumes col: "map Task data = map Num ks"
  shows "\<forall>(k, r) \<in> set (zip (ks @ ms) (data @ map missing_record ms)). Task r = Num k"
proof -
  have len: "length ks = length data" using col by (metis length_map)
  have "zip (ks @ ms) (data @ map missing_record ms) =
          zip ks data @ zip ms (map missing_record ms)"
    using len by simp
  moreover have "\<forall>(k, r) \<in> set (zip ks data). Task r = Num k"
  proof -
    have "\<forall>i < length data. Task (data ! i) = Num (ks ! i)"
      using col len by (metis nth_map)
    then show ?thesis using len by (auto simp: set_zip)
  qed
  moreover have "\<forall>(k, r) \<in> set (zip ms (map missing_record ms)). Task r = Num k"
    by (auto simp: set_zip missing_record_def)
  ultimately show ?thesis by auto
qed

text \<open>
  The table after lines 72 to 84: the rows of the table and one record for each missing
  integer, with an axis column that never increases.
\<close>

lemma sort_and_fill_rows_filled:
  assumes tc: "task_column = ''semitones'' \<or> task_column = ''fifths''"
    and col: "map Task data = map Num vs"
    and ne: "vs \<noteq> []"
  shows "\<exists>rows ks missing.
           sort_and_fill_rows task_column data = Inr rows
         \<and> distinct missing
         \<and> set missing =
             {m. min 0 (Min (set vs)) \<le> m \<and> m \<le> Max (set vs) \<and> m \<notin> set vs}
         \<and> mset rows = mset data + mset (map missing_record missing)
         \<and> map Task rows = map Num ks
         \<and> mset ks = mset vs + mset missing
         \<and> sorted_wrt (\<lambda>a b. a \<ge> b) ks"
proof -
  obtain v vs' where vs: "vs = v # vs'" using ne by (cases vs) auto
  let ?missing = "missing_values v vs'"
  let ?kvs = "zip (v # vs' @ ?missing) (data @ map missing_record ?missing)"
  let ?filled = "sort_values_desc ?kvs"
  let ?ks = "rev (map fst (sort_key fst (rev ?kvs)))"
  have len: "length vs = length data" using col by (metis length_map)
  have run: "sort_and_fill_rows task_column data = Inr ?filled"
    using sort_and_fill_rows_numeric [OF tc] col vs by simp
  have "mset ?filled = mset (data @ map missing_record ?missing)"
    by (rule mset_sort_values_desc) (use len vs in simp)
  then have m: "mset ?filled = mset data + mset (map missing_record ?missing)" by simp
  have "\<forall>(k, r) \<in> set ?kvs. Task r = Num k"
    using filled_pairs_agree [OF col, of ?missing] vs by simp
  then have k: "map Task ?filled = map Num ?ks"
    by (rule keys_sort_values_desc)
  have s: "sorted_wrt (\<lambda>a b. a \<ge> b) ?ks"
    by (simp add: sorted_wrt_rev)
  have d: "distinct ?missing" by (rule distinct_missing_values)
  have e: "set ?missing =
      {m. min 0 (Min (set vs)) \<le> m \<and> m \<le> Max (set vs) \<and> m \<notin> set vs}"
    unfolding vs by (rule set_missing_values)
  have "mset ?ks = mset (map fst ?kvs)" by simp
  also have "map fst ?kvs = v # vs' @ ?missing"
    by (rule map_fst_zip) (use len vs in simp)
  finally have a: "mset ?ks = mset vs + mset ?missing" using vs by simp
  from run d e m k a s show ?thesis by blast
qed

lemma chart_data_create_gantt: "chart_data (create_gantt d t c l s) = d"
  by (simp add: create_gantt_def)

text \<open>The plan without a global key shows the table of lines 72 to 87 as it is.\<close>

lemma plan_without_key:
  assumes rows: "(if sf then sort_and_fill_rows task_column data else Inr data) = Inr rows"
  shows "\<exists>c. create_modulation_plan lib data task_column sf title None ph colors = Inr c
           \<and> chart_data c = rows"
  unfolding create_modulation_plan_def rows
  by (simp add: apply_globalkey_def Let_def chart_data_create_gantt)

lemma transpose_rows_numeric:
  assumes col: "map Task data = map Num vs"
  shows "transpose_rows (Some t) x2name data =
           Inr (map (\<lambda>(r, v). r\<lparr>Task := Name (x2name (v + t))\<rparr>) (zip data vs))"
proof -
  have "as_ints (map Task data) = Some vs" using col by (simp only: as_ints_Some_iff)
  then show ?thesis by (simp add: transpose_rows_def)
qed

text \<open>The plan with a global key shows that table with every axis value renamed.\<close>

lemma plan_with_key:
  assumes tc: "task_column = ''semitones'' \<or> task_column = ''fifths''"
    and rows: "(if sf then sort_and_fill_rows task_column data else Inr data) = Inr rows"
    and col: "map Task rows = map Num ks"
    and off: "(if task_column = ''fifths'' then name2fifths lib gk else name2pc lib gk) = Some t"
  shows "\<exists>c. create_modulation_plan lib data task_column sf title (Some gk) ph colors = Inr c
           \<and> chart_data c =
               map (\<lambda>(r, k). r\<lparr>Task := Name ((if task_column = ''fifths'' then fifths2name lib
                                                 else midi2name lib) (k + t))\<rparr>) (zip rows ks)"
proof -
  let ?x2name = "if task_column = ''fifths'' then fifths2name lib else midi2name lib"
  let ?d2 = "map (\<lambda>(r, k). r\<lparr>Task := Name (?x2name (k + t))\<rparr>) (zip rows ks)"
  have key: "apply_globalkey lib task_column title (Some gk) rows =
               Inr (title @ '' ('' @ gk @ '')'', ?d2)"
    using tc off transpose_rows_numeric [OF col]
    by (auto simp: apply_globalkey_def Let_def)
  show ?thesis
    unfolding create_modulation_plan_def rows using key
    by (simp add: Let_def chart_data_create_gantt)
qed

lemma map_field_zip_update:
  assumes len: "length data = length vs"
  shows "map Start (map (\<lambda>(r, v). r\<lparr>Task := g v\<rparr>) (zip data vs)) = map Start data"
    and "map Finish (map (\<lambda>(r, v). r\<lparr>Task := g v\<rparr>) (zip data vs)) = map Finish data"
    and "map Resource (map (\<lambda>(r, v). r\<lparr>Task := g v\<rparr>) (zip data vs)) = map Resource data"
    and "map Description (map (\<lambda>(r, v). r\<lparr>Task := g v\<rparr>) (zip data vs)) =
           map Description data"
    and "map Task (map (\<lambda>(r, v). r\<lparr>Task := g v\<rparr>) (zip data vs)) = map g vs"
  using len by (induction data vs rule: list_induct2) auto

lemma missing_record_fun:
  "missing_record =
     (\<lambda>m. \<lparr>Start = 0, Finish = 0, Resource = ''local'', Task = Num m, Description = None\<rparr>)"
  by (rule ext) (simp add: missing_record_def)

text \<open>Renaming the axis values row by row is one function applied to every row.\<close>

lemma rename_zip:
  assumes col: "map Task rows = map Num ks"
  shows "map (\<lambda>(r, k). r\<lparr>Task := g k\<rparr>) (zip rows ks) =
         map (\<lambda>r. r\<lparr>Task := (case Task r of Num k \<Rightarrow> g k | Name s \<Rightarrow> Name s)\<rparr>) rows"
proof -
  have len: "length rows = length ks" using col by (metis length_map)
  show ?thesis using len col by (induction rows ks rule: list_induct2) auto
qed

lemma mset_renamed:
  assumes col: "map Task data = map Num vs"
    and rcol: "map Task rows = map Num ks"
    and m: "mset rows = mset data + mset (map missing_record missing)"
  shows "mset (map (\<lambda>(r, k). r\<lparr>Task := g k\<rparr>) (zip rows ks)) =
           mset (map (\<lambda>(r, v). r\<lparr>Task := g v\<rparr>) (zip data vs))
         + mset (map (\<lambda>m. \<lparr>Start = 0, Finish = 0, Resource = ''local'', Task = g m,
                             Description = None\<rparr>) missing)"
proof -
  let ?h = "\<lambda>r. r\<lparr>Task := (case Task r of Num k \<Rightarrow> g k | Name s \<Rightarrow> Name s)\<rparr>"
  have "mset (map (\<lambda>(r, k). r\<lparr>Task := g k\<rparr>) (zip rows ks)) = image_mset ?h (mset rows)"
    unfolding rename_zip [OF rcol] by simp
  also have "\<dots> = mset (map ?h data) + mset (map ?h (map missing_record missing))"
    unfolding m by (simp add: multiset.map_comp)
  also have "map ?h data = map (\<lambda>(r, v). r\<lparr>Task := g v\<rparr>) (zip data vs)"
    by (rule rename_zip [OF col, symmetric])
  also have "map ?h (map missing_record missing) =
      map (\<lambda>m. \<lparr>Start = 0, Finish = 0, Resource = ''local'', Task = g m,
                  Description = None\<rparr>) missing"
    by (simp add: missing_record_def)
  finally show ?thesis .
qed

text \<open>Facts for running the model on the example tables.\<close>

lemma mset_map_distinct_set:
  assumes "distinct xs" "distinct ys" "set xs = set ys"
  shows "mset (map f xs) = mset (map f ys)"
proof -
  have "mset xs = mset ys" using assms by (simp add: set_eq_iff_mset_eq_distinct)
  then show ?thesis by (metis mset_map)
qed

lemma sorted_desc_unique:
  assumes "sorted_wrt (\<lambda>a b. a \<ge> b) ks" "mset ks = mset xs"
  shows "ks = rev (sort (xs :: int list))"
proof -
  have "sorted (rev ks)" using assms(1) by (simp add: sorted_wrt_rev)
  moreover have "mset (rev ks) = mset xs" using assms(2) by simp
  ultimately have "sort xs = rev ks" by (rule properties_for_sort [rotated])
  then show ?thesis by simp
qed

lemma ex_offset_G:
  "name2fifths ms3_sample ''G'' = Some 1" "name2pc ms3_sample ''G'' = Some 7"
  by (simp_all add: ms3_sample_def sample_name2fifths_def letter_fifths_def upper_char_def)

lemma ex_fifths_names:
  "sample_fifths2name (- 1) = ''F''" "sample_fifths2name 0 = ''C''"
  "sample_fifths2name 1 = ''G''" "sample_fifths2name 2 = ''D''" "sample_fifths2name 3 = ''A''"
  "sample_fifths2name 4 = ''E''"
  by (simp_all add: sample_fifths2name_def)

lemma ex_semitones_names:
  "sample_midi2name 7 = ''G''" "sample_midi2name 8 = ''G#/Ab''" "sample_midi2name 9 = ''A''"
  "sample_midi2name 10 = ''A#/Bb''" "sample_midi2name 11 = ''B''" "sample_midi2name 12 = ''C''"
  by (simp_all add: sample_midi2name_def)

lemma ex_offset_Bb: "name2fifths ms3_sample ''Bb'' = Some (- 2)"
  by (simp add: ms3_sample_def sample_name2fifths_def letter_fifths_def upper_char_def)

lemma ex_flat_names:
  "sample_fifths2name (- 2) = ''Bb''" "sample_fifths2name (- 3) = ''Eb''"
  by (simp_all add: sample_fifths2name_def)

subsection \<open>Filling the gaps of a numeric axis\<close>

text \<open>
  Claim C1. Let the axis column be \<^verbatim>\<open>semitones\<close> or \<^verbatim>\<open>fifths\<close> and hold the integers
  \<open>vs\<close>, at least one. With \<^verbatim>\<open>sort_and_fill\<close> enabled \<^verbatim>\<open>create_modulation_plan\<close>
  synthesizes one record with Start 0, Finish 0 and Resource \<^verbatim>\<open>local\<close> for each integer
  from the smaller of 0 and the least axis value up to the greatest axis value that does
  not occur in the column, and returns a chart whose rows are the rows of the table and
  these records, each once. Without a global key the record of the integer \<open>m\<close> has
  \<open>m\<close> as its axis value. With a global key the axis value of every row, of the table
  or synthesized, is the note name of its integer plus the offset of the key. An axis
  holding \<open>- 2\<close> and \<open>3\<close> gains \<open>- 1, 0, 1, 2\<close>; when the least value is positive, 0
  lies in the range and not in the column, so it is among the missing ones.
\<close>

theorem create_modulation_plan_fills_gaps:
  assumes tc: "task_column = ''semitones'' \<or> task_column = ''fifths''"
    and col: "map Task data = map Num vs"
    and ne: "vs \<noteq> []"
  shows "\<exists>missing.
           distinct missing
         \<and> set missing =
             {m. min 0 (Min (set vs)) \<le> m \<and> m \<le> Max (set vs) \<and> m \<notin> set vs}
         \<and> (\<exists>c. create_modulation_plan lib data task_column True title None phraseends colors
                   = Inr c
              \<and> mset (chart_data c) =
                  mset data
                + mset (map (\<lambda>m. \<lparr>Start = 0, Finish = 0, Resource = ''local'', Task = Num m,
                                    Description = None\<rparr>) missing))
         \<and> (\<forall>gk t.
               (if task_column = ''fifths'' then name2fifths lib gk else name2pc lib gk) = Some t
               \<longrightarrow>
               (\<exists>c. create_modulation_plan lib data task_column True title (Some gk) phraseends
                      colors = Inr c
                  \<and> mset (chart_data c) =
                      mset (map (\<lambda>(r, v).
                                   r\<lparr>Task := Name ((if task_column = ''fifths'' then fifths2name lib
                                                      else midi2name lib) (v + t))\<rparr>)
                              (zip data vs))
                    + mset (map (\<lambda>m. \<lparr>Start = 0, Finish = 0, Resource = ''local'',
                                        Task = Name ((if task_column = ''fifths''
                                                      then fifths2name lib
                                                      else midi2name lib) (m + t)),
                                        Description = None\<rparr>) missing)))"
proof -
  obtain rows ks missing
    where run: "sort_and_fill_rows task_column data = Inr rows"
      and d: "distinct missing"
      and e: "set missing =
                {m. min 0 (Min (set vs)) \<le> m \<and> m \<le> Max (set vs) \<and> m \<notin> set vs}"
      and m: "mset rows = mset data + mset (map missing_record missing)"
      and k: "map Task rows = map Num ks"
    using sort_and_fill_rows_filled [OF tc col ne] by blast
  have rows: "(if True then sort_and_fill_rows task_column data else Inr data) = Inr rows"
    using run by simp
  have plain: "\<exists>c. create_modulation_plan lib data task_column True title None phraseends colors
                   = Inr c
              \<and> mset (chart_data c) =
                  mset data
                + mset (map (\<lambda>m. \<lparr>Start = 0, Finish = 0, Resource = ''local'', Task = Num m,
                                    Description = None\<rparr>) missing)"
    using plan_without_key [OF rows, of lib title phraseends colors] m
    unfolding missing_record_fun by auto
  have keyed: "\<exists>c. create_modulation_plan lib data task_column True title (Some gk) phraseends
                      colors = Inr c
                  \<and> mset (chart_data c) =
                      mset (map (\<lambda>(r, v).
                                   r\<lparr>Task := Name ((if task_column = ''fifths'' then fifths2name lib
                                                      else midi2name lib) (v + t))\<rparr>)
                              (zip data vs))
                    + mset (map (\<lambda>m. \<lparr>Start = 0, Finish = 0, Resource = ''local'',
                                        Task = Name ((if task_column = ''fifths''
                                                      then fifths2name lib
                                                      else midi2name lib) (m + t)),
                                        Description = None\<rparr>) missing)"
    if off: "(if task_column = ''fifths'' then name2fifths lib gk else name2pc lib gk) = Some t"
    for gk t
  proof -
    obtain c
      where c: "create_modulation_plan lib data task_column True title (Some gk) phraseends
                  colors = Inr c"
        and cd: "chart_data c =
               map (\<lambda>(r, k). r\<lparr>Task := Name ((if task_column = ''fifths'' then fifths2name lib
                                                 else midi2name lib) (k + t))\<rparr>) (zip rows ks)"
      using plan_with_key [OF tc rows k off, of title phraseends colors] by blast
    have "mset (chart_data c) =
        mset (map (\<lambda>(r, v).
                     r\<lparr>Task := Name ((if task_column = ''fifths'' then fifths2name lib
                                        else midi2name lib) (v + t))\<rparr>)
                (zip data vs))
      + mset (map (\<lambda>m. \<lparr>Start = 0, Finish = 0, Resource = ''local'',
                          Task = Name ((if task_column = ''fifths''
                                        then fifths2name lib
                                        else midi2name lib) (m + t)),
                          Description = None\<rparr>) missing)"
      unfolding cd by (rule mset_renamed [OF col k m])
    with c show ?thesis by blast
  qed
  from d e plain keyed show ?thesis by blast
qed

theorem create_modulation_plan_fills_gaps_witness:
  "(\<exists>c. create_modulation_plan ms3_sample [ex_row (- 2), ex_row 3] ''fifths'' True ''plan'' None
          (None :: rat list option) None = Inr c
      \<and> mset (chart_data c) =
          mset [ex_row (- 2), ex_row 3,
                \<lparr>Start = 0, Finish = 0, Resource = ''local'', Task = Num (- 1), Description = None\<rparr>,
                \<lparr>Start = 0, Finish = 0, Resource = ''local'', Task = Num 0, Description = None\<rparr>,
                \<lparr>Start = 0, Finish = 0, Resource = ''local'', Task = Num 1, Description = None\<rparr>,
                \<lparr>Start = 0, Finish = 0, Resource = ''local'', Task = Num 2, Description = None\<rparr>])
   \<and> (\<exists>c. create_modulation_plan ms3_sample [ex_row (- 2), ex_row 3] ''fifths'' True ''plan''
          (Some ''G'') (None :: rat list option) None = Inr c
      \<and> mset (chart_data c) =
          mset [\<lparr>Start = 1, Finish = 2, Resource = ''applied'', Task = Name ''F'', Description = None\<rparr>,
                \<lparr>Start = 1, Finish = 2, Resource = ''applied'', Task = Name ''E'', Description = None\<rparr>,
                \<lparr>Start = 0, Finish = 0, Resource = ''local'', Task = Name ''C'', Description = None\<rparr>,
                \<lparr>Start = 0, Finish = 0, Resource = ''local'', Task = Name ''G'', Description = None\<rparr>,
                \<lparr>Start = 0, Finish = 0, Resource = ''local'', Task = Name ''D'', Description = None\<rparr>,
                \<lparr>Start = 0, Finish = 0, Resource = ''local'', Task = Name ''A'', Description = None\<rparr>])
   \<and> (\<exists>c. create_modulation_plan ms3_sample [ex_row 2] ''semitones'' True ''plan'' None
          (None :: rat list option) None = Inr c
      \<and> mset (chart_data c) =
          mset [ex_row 2,
                \<lparr>Start = 0, Finish = 0, Resource = ''local'', Task = Num 0, Description = None\<rparr>,
                \<lparr>Start = 0, Finish = 0, Resource = ''local'', Task = Num 1, Description = None\<rparr>])"
proof -
  have col: "map Task [ex_row (- 2), ex_row 3] = map Num [- 2, 3]"
    and col2: "map Task [ex_row 2] = map Num [2]"
    by (simp_all add: ex_row_def)
  have s: "{m::int. min 0 (Min (set [- 2, 3])) \<le> m \<and> m \<le> Max (set [- 2, 3])
                  \<and> m \<notin> set [- 2, 3]} = set [- 1, 0, 1, 2]"
    and s2: "{m::int. min 0 (Min (set [2])) \<le> m \<and> m \<le> Max (set [2]) \<and> m \<notin> set [2]}
               = set [0, 1]"
    by auto
  note names = ex_fifths_names
  have tc: "''fifths'' = ''semitones'' \<or> ''fifths'' = ''fifths''"
    and tc2: "''semitones'' = ''semitones'' \<or> ''semitones'' = ''fifths''"
    and ne: "[- 2, 3 :: int] \<noteq> []" and ne2: "[2 :: int] \<noteq> []"
    by simp_all
  note t = create_modulation_plan_fills_gaps [OF tc col ne, of ms3_sample "''plan''"
      "None :: rat list option" None, unfolded s if_P [OF refl]]
  then obtain missing where d: "distinct missing" and e: "set missing = set [- 1, 0, 1, 2 :: int]"
    and plain: "\<exists>c. create_modulation_plan ms3_sample [ex_row (- 2), ex_row 3] ''fifths'' True
                     ''plan'' None (None :: rat list option) None = Inr c
                 \<and> mset (chart_data c) =
                     mset [ex_row (- 2), ex_row 3]
                   + mset (map (\<lambda>m. \<lparr>Start = 0, Finish = 0, Resource = ''local'', Task = Num m,
                                       Description = None\<rparr>) missing)"
    and keyed_all: "\<forall>gk t. name2fifths ms3_sample gk = Some t \<longrightarrow>
               (\<exists>c. create_modulation_plan ms3_sample [ex_row (- 2), ex_row 3] ''fifths'' True
                     ''plan'' (Some gk) (None :: rat list option) None = Inr c
                 \<and> mset (chart_data c) =
                     mset (map (\<lambda>(r, v). r\<lparr>Task := Name (fifths2name ms3_sample (v + t))\<rparr>)
                             (zip [ex_row (- 2), ex_row 3] [- 2, 3]))
                   + mset (map (\<lambda>m. \<lparr>Start = 0, Finish = 0, Resource = ''local'',
                                       Task = Name (fifths2name ms3_sample (m + t)),
                                       Description = None\<rparr>) missing))"
    by (elim exE, elim conjE) (rule that)
  note keyed = keyed_all [rule_format, OF ex_offset_G(1)]
  have d4: "distinct [- 1, 0, 1, 2 :: int]" by simp
  note same = mset_map_distinct_set [OF d d4 e]
  have a: "\<exists>c. create_modulation_plan ms3_sample [ex_row (- 2), ex_row 3] ''fifths'' True ''plan''
          None (None :: rat list option) None = Inr c
      \<and> mset (chart_data c) =
          mset [ex_row (- 2), ex_row 3,
                \<lparr>Start = 0, Finish = 0, Resource = ''local'', Task = Num (- 1), Description = None\<rparr>,
                \<lparr>Start = 0, Finish = 0, Resource = ''local'', Task = Num 0, Description = None\<rparr>,
                \<lparr>Start = 0, Finish = 0, Resource = ''local'', Task = Num 1, Description = None\<rparr>,
                \<lparr>Start = 0, Finish = 0, Resource = ''local'', Task = Num 2, Description = None\<rparr>]"
    using plain unfolding same by (simp add: add_mset_commute)
  have b: "\<exists>c. create_modulation_plan ms3_sample [ex_row (- 2), ex_row 3] ''fifths'' True ''plan''
          (Some ''G'') (None :: rat list option) None = Inr c
      \<and> mset (chart_data c) =
          mset [\<lparr>Start = 1, Finish = 2, Resource = ''applied'', Task = Name ''F'', Description = None\<rparr>,
                \<lparr>Start = 1, Finish = 2, Resource = ''applied'', Task = Name ''E'', Description = None\<rparr>,
                \<lparr>Start = 0, Finish = 0, Resource = ''local'', Task = Name ''C'', Description = None\<rparr>,
                \<lparr>Start = 0, Finish = 0, Resource = ''local'', Task = Name ''G'', Description = None\<rparr>,
                \<lparr>Start = 0, Finish = 0, Resource = ''local'', Task = Name ''D'', Description = None\<rparr>,
                \<lparr>Start = 0, Finish = 0, Resource = ''local'', Task = Name ''A'', Description = None\<rparr>]"
    using keyed unfolding same by (simp add: ms3_sample_def names ex_row_def add_mset_commute)
  have nf: "\<not> ''semitones'' = ''fifths''" by simp
  note t2 = create_modulation_plan_fills_gaps [OF tc2 col2 ne2, of ms3_sample "''plan''"
      "None :: rat list option" None, unfolded s2 if_not_P [OF nf]]
  then obtain missing2 where d2: "distinct missing2" and e2: "set missing2 = set [0, 1 :: int]"
    and plain2: "\<exists>c. create_modulation_plan ms3_sample [ex_row 2] ''semitones'' True
                     ''plan'' None (None :: rat list option) None = Inr c
                 \<and> mset (chart_data c) =
                     mset [ex_row 2]
                   + mset (map (\<lambda>m. \<lparr>Start = 0, Finish = 0, Resource = ''local'', Task = Num m,
                                       Description = None\<rparr>) missing2)"
    by (elim exE, elim conjE) (rule that)
  have d01: "distinct [0, 1 :: int]" by simp
  have c: "\<exists>c. create_modulation_plan ms3_sample [ex_row 2] ''semitones'' True ''plan'' None
          (None :: rat list option) None = Inr c
      \<and> mset (chart_data c) =
          mset [ex_row 2,
                \<lparr>Start = 0, Finish = 0, Resource = ''local'', Task = Num 0, Description = None\<rparr>,
                \<lparr>Start = 0, Finish = 0, Resource = ''local'', Task = Num 1, Description = None\<rparr>]"
    using plain2 unfolding mset_map_distinct_set [OF d2 d01 e2] by (simp add: add_mset_commute)
  from a b c show ?thesis by (intro conjI)
qed

text \<open>
  With a global key no row of the returned chart carries the integer 0: the record
  synthesized for it carries a note name.
\<close>

lemma ex_keyed_fifths_plan:
  "create_modulation_plan ms3_sample [ex_row (- 2), ex_row 3] ''fifths'' True ''plan'' (Some ''G'')
     (None :: rat list option) None =
   Inr \<lparr>chart_data =
          [\<lparr>Start = 1, Finish = 2, Resource = ''applied'', Task = Name ''E'', Description = None\<rparr>,
           \<lparr>Start = 0, Finish = 0, Resource = ''local'', Task = Name ''A'', Description = None\<rparr>,
           \<lparr>Start = 0, Finish = 0, Resource = ''local'', Task = Name ''D'', Description = None\<rparr>,
           \<lparr>Start = 0, Finish = 0, Resource = ''local'', Task = Name ''G'', Description = None\<rparr>,
           \<lparr>Start = 0, Finish = 0, Resource = ''local'', Task = Name ''C'', Description = None\<rparr>,
           \<lparr>Start = 1, Finish = 2, Resource = ''applied'', Task = Name ''F'', Description = None\<rparr>],
        chart_title = ''plan (G)'',
        chart_colors = KEY_COLORS,
        xaxis_title = ''Measures'',
        yaxis_title = ''Tonicized keys (fifths)'',
        chart_shapes = []\<rparr>"
  by code_simp

theorem placeholder_axis_renamed_by_key:
  "\<not> (\<exists>c. create_modulation_plan ms3_sample [ex_row (- 2), ex_row 3] ''fifths'' True ''plan''
            (Some ''G'') (None :: rat list option) None = Inr c
        \<and> Num 0 \<in> set (map Task (chart_data c)))"
  by (simp add: ex_keyed_fifths_plan)

subsection \<open>The order of the filled table\<close>

text \<open>
  Claim C9. Under the same conditions the chart returned without a global key has the rows
  of the table together with the synthesized records, and their axis values, the integers
  of the table and the missing ones, never increase from the first row to the last. With a global key the chart has these rows
  in this order, the axis value of each replaced by the note name of the value plus the
  offset of the key.
\<close>

theorem create_modulation_plan_sorted_desc:
  assumes tc: "task_column = ''semitones'' \<or> task_column = ''fifths''"
    and col: "map Task data = map Num vs"
    and ne: "vs \<noteq> []"
  shows "\<exists>rows ks missing.
           distinct missing
         \<and> set missing =
             {m. min 0 (Min (set vs)) \<le> m \<and> m \<le> Max (set vs) \<and> m \<notin> set vs}
         \<and> mset rows =
             mset data
           + mset (map (\<lambda>m. \<lparr>Start = 0, Finish = 0, Resource = ''local'', Task = Num m,
                               Description = None\<rparr>) missing)
         \<and> map Task rows = map Num ks
         \<and> mset ks = mset vs + mset missing
         \<and> sorted_wrt (\<lambda>a b. a \<ge> b) ks
         \<and> (\<exists>c. create_modulation_plan lib data task_column True title None phraseends colors
                   = Inr c
              \<and> chart_data c = rows)
         \<and> (\<forall>gk t.
               (if task_column = ''fifths'' then name2fifths lib gk else name2pc lib gk) = Some t
               \<longrightarrow>
               (\<exists>c. create_modulation_plan lib data task_column True title (Some gk) phraseends
                      colors = Inr c
                  \<and> chart_data c =
                      map (\<lambda>(r, k).
                             r\<lparr>Task := Name ((if task_column = ''fifths'' then fifths2name lib
                                                else midi2name lib) (k + t))\<rparr>)
                        (zip rows ks)))"
proof -
  obtain rows ks missing
    where run: "sort_and_fill_rows task_column data = Inr rows"
      and d: "distinct missing"
      and e: "set missing =
                {m. min 0 (Min (set vs)) \<le> m \<and> m \<le> Max (set vs) \<and> m \<notin> set vs}"
      and m: "mset rows = mset data + mset (map missing_record missing)"
      and k: "map Task rows = map Num ks"
      and a: "mset ks = mset vs + mset missing"
      and s: "sorted_wrt (\<lambda>a b. a \<ge> b) ks"
    using sort_and_fill_rows_filled [OF tc col ne] by blast
  have rows: "(if True then sort_and_fill_rows task_column data else Inr data) = Inr rows"
    using run by simp
  note m' = m [unfolded missing_record_fun]
  note plain = plan_without_key [OF rows, of lib title phraseends colors]
  have keyed: "\<forall>gk t.
               (if task_column = ''fifths'' then name2fifths lib gk else name2pc lib gk) = Some t
               \<longrightarrow>
               (\<exists>c. create_modulation_plan lib data task_column True title (Some gk) phraseends
                      colors = Inr c
                  \<and> chart_data c =
                      map (\<lambda>(r, k).
                             r\<lparr>Task := Name ((if task_column = ''fifths'' then fifths2name lib
                                                else midi2name lib) (k + t))\<rparr>)
                        (zip rows ks))"
    using plan_with_key [OF tc rows k] by blast
  from d e m' k a s plain keyed show ?thesis by blast
qed

theorem create_modulation_plan_sorted_desc_witness:
  "(\<exists>c. create_modulation_plan ms3_sample [ex_row 2, ex_row 5, ex_row 2] ''semitones'' True
          ''plan'' None (None :: rat list option) None = Inr c
      \<and> map Task (chart_data c) = [Num 5, Num 4, Num 3, Num 2, Num 2, Num 1, Num 0]
      \<and> mset (chart_data c) =
          mset [ex_row 2, ex_row 5, ex_row 2,
                \<lparr>Start = 0, Finish = 0, Resource = ''local'', Task = Num 0, Description = None\<rparr>,
                \<lparr>Start = 0, Finish = 0, Resource = ''local'', Task = Num 1, Description = None\<rparr>,
                \<lparr>Start = 0, Finish = 0, Resource = ''local'', Task = Num 3, Description = None\<rparr>,
                \<lparr>Start = 0, Finish = 0, Resource = ''local'', Task = Num 4, Description = None\<rparr>])
   \<and> (\<exists>c. create_modulation_plan ms3_sample [ex_row 2, ex_row 5, ex_row 2] ''semitones'' True
          ''plan'' (Some ''G'') (None :: rat list option) None = Inr c
      \<and> map Task (chart_data c) =
          [Name ''C'', Name ''B'', Name ''A#/Bb'', Name ''A'', Name ''A'', Name ''G#/Ab'',
           Name ''G''])"
proof -
  have col: "map Task [ex_row 2, ex_row 5, ex_row 2] = map Num [2, 5, 2]"
    by (simp add: ex_row_def)
  have s: "{m::int. min 0 (Min (set [2, 5, 2])) \<le> m \<and> m \<le> Max (set [2, 5, 2])
                  \<and> m \<notin> set [2, 5, 2]} = set [0, 1, 3, 4]"
    by auto
  have tc: "''semitones'' = ''semitones'' \<or> ''semitones'' = ''fifths''"
    and ne: "[2, 5, 2 :: int] \<noteq> []" and nf: "\<not> ''semitones'' = ''fifths''"
    by simp_all
  note t = create_modulation_plan_sorted_desc [OF tc col ne, of ms3_sample "''plan''"
      "None :: rat list option" None, unfolded s if_not_P [OF nf]]
  then obtain rows ks missing
    where d: "distinct missing" and e: "set missing = set [0, 1, 3, 4 :: int]"
      and m: "mset rows =
                mset [ex_row 2, ex_row 5, ex_row 2]
              + mset (map (\<lambda>m. \<lparr>Start = 0, Finish = 0, Resource = ''local'', Task = Num m,
                                  Description = None\<rparr>) missing)"
      and k: "map Task rows = map Num ks"
      and a: "mset ks = mset [2, 5, 2] + mset missing"
      and srt: "sorted_wrt (\<lambda>a b. a \<ge> b) ks"
      and plain: "\<exists>c. create_modulation_plan ms3_sample [ex_row 2, ex_row 5, ex_row 2]
                       ''semitones'' True ''plan'' None (None :: rat list option) None = Inr c
                   \<and> chart_data c = rows"
      and keyed_all: "\<forall>gk t. name2pc ms3_sample gk = Some t \<longrightarrow>
               (\<exists>c. create_modulation_plan ms3_sample [ex_row 2, ex_row 5, ex_row 2]
                       ''semitones'' True ''plan'' (Some gk) (None :: rat list option) None = Inr c
                  \<and> chart_data c =
                      map (\<lambda>(r, k). r\<lparr>Task := Name (midi2name ms3_sample (k + t))\<rparr>)
                        (zip rows ks))"
    by (elim exE, elim conjE) (rule that)
  have d4: "distinct [0, 1, 3, 4 :: int]" by simp
  have mm: "mset missing = mset [0, 1, 3, 4]"
    using d d4 e by (simp only: set_eq_iff_mset_eq_distinct)
  have "mset ks = mset ([2, 5, 2] @ [0, 1, 3, 4])" using a mm by simp
  then have "ks = rev (sort ([2, 5, 2] @ [0, 1, 3, 4]))"
    by (rule sorted_desc_unique [OF srt])
  then have ks: "ks = [5, 4, 3, 2, 2, 1, 0]" by simp
  have len: "length rows = length ks" using k by (metis length_map)
  from plain obtain c0
    where c0: "create_modulation_plan ms3_sample [ex_row 2, ex_row 5, ex_row 2] ''semitones'' True
                 ''plan'' None (None :: rat list option) None = Inr c0"
      and cd0: "chart_data c0 = rows"
    by (elim exE, elim conjE) (rule that)
  have p1: "map Task (chart_data c0) = [Num 5, Num 4, Num 3, Num 2, Num 2, Num 1, Num 0]"
    unfolding cd0 k ks by simp
  have p2: "mset (chart_data c0) =
          mset [ex_row 2, ex_row 5, ex_row 2,
                \<lparr>Start = 0, Finish = 0, Resource = ''local'', Task = Num 0, Description = None\<rparr>,
                \<lparr>Start = 0, Finish = 0, Resource = ''local'', Task = Num 1, Description = None\<rparr>,
                \<lparr>Start = 0, Finish = 0, Resource = ''local'', Task = Num 3, Description = None\<rparr>,
                \<lparr>Start = 0, Finish = 0, Resource = ''local'', Task = Num 4, Description = None\<rparr>]"
    unfolding cd0 m mset_map_distinct_set [OF d d4 e] by simp
  from keyed_all [rule_format, OF ex_offset_G(2)] obtain c
    where c: "create_modulation_plan ms3_sample [ex_row 2, ex_row 5, ex_row 2]
                ''semitones'' True ''plan'' (Some ''G'') (None :: rat list option) None = Inr c"
      and cd: "chart_data c =
                 map (\<lambda>(r, k). r\<lparr>Task := Name (midi2name ms3_sample (k + 7))\<rparr>) (zip rows ks)"
    by (elim exE, elim conjE) (rule that)
  have "map Task (chart_data c) = map (\<lambda>k. Name (midi2name ms3_sample (k + 7))) ks"
    unfolding cd by (rule map_field_zip_update(5) [OF len])
  then have q: "map Task (chart_data c) =
          [Name ''C'', Name ''B'', Name ''A#/Bb'', Name ''A'', Name ''A'', Name ''G#/Ab'',
           Name ''G'']"
    unfolding ks by (simp add: ms3_sample_def ex_semitones_names)
  show ?thesis
    by (intro conjI exI [of _ c0] exI [of _ c]) (rule c0 p1 p2 c q)+
qed

text \<open>
  With a global key the axis column of the returned chart holds no numbers, and the rows of
  the table are not among the rows of the chart as they were.
\<close>

lemma ex_keyed_semitones_plan:
  "create_modulation_plan ms3_sample [ex_row 2, ex_row 5, ex_row 2] ''semitones'' True ''plan''
     (Some ''G'') (None :: rat list option) None =
   Inr \<lparr>chart_data =
          [\<lparr>Start = 1, Finish = 2, Resource = ''applied'', Task = Name ''C'', Description = None\<rparr>,
           \<lparr>Start = 0, Finish = 0, Resource = ''local'', Task = Name ''B'', Description = None\<rparr>,
           \<lparr>Start = 0, Finish = 0, Resource = ''local'', Task = Name ''A#/Bb'', Description = None\<rparr>,
           \<lparr>Start = 1, Finish = 2, Resource = ''applied'', Task = Name ''A'', Description = None\<rparr>,
           \<lparr>Start = 1, Finish = 2, Resource = ''applied'', Task = Name ''A'', Description = None\<rparr>,
           \<lparr>Start = 0, Finish = 0, Resource = ''local'', Task = Name ''G#/Ab'', Description = None\<rparr>,
           \<lparr>Start = 0, Finish = 0, Resource = ''local'', Task = Name ''G'', Description = None\<rparr>],
        chart_title = ''plan (G)'',
        chart_colors = KEY_COLORS,
        xaxis_title = ''Measures'',
        yaxis_title = ''Tonicized keys (semitones)'',
        chart_shapes = []\<rparr>"
  by code_simp

theorem keyed_plan_axis_not_numeric:
  "\<not> (\<exists>c ks. create_modulation_plan ms3_sample [ex_row 2, ex_row 5, ex_row 2] ''semitones'' True
            ''plan'' (Some ''G'') (None :: rat list option) None = Inr c
        \<and> map Task (chart_data c) = map Num ks)
   \<and> \<not> (\<exists>c. create_modulation_plan ms3_sample [ex_row 2, ex_row 5, ex_row 2] ''semitones'' True
            ''plan'' (Some ''G'') (None :: rat list option) None = Inr c
        \<and> ex_row 5 \<in> set (chart_data c))"
  unfolding ex_keyed_semitones_plan by (auto simp: ex_row_def)

subsection \<open>Transposition by the global key\<close>

text \<open>
  Claim C2, as the code has it. Let the axis column be \<^verbatim>\<open>semitones\<close> or \<^verbatim>\<open>fifths\<close> and
  hold the integers \<open>vs\<close>, and let \<open>t\<close> be the offset derived from the key
  (\<^verbatim>\<open>name2fifths\<close> for fifths, \<^verbatim>\<open>name2pc\<close> for semitones). With \<^verbatim>\<open>sort_and_fill\<close>
  disabled the chart has as many rows as the table handed in, the same Resource, Start and
  Finish in every row, and in the axis column of every row the note name
  (\<^verbatim>\<open>fifths2name\<close> for fifths, \<^verbatim>\<open>midi2name\<close> for semitones) of the row's integer plus
  \<open>t\<close>. With \<^verbatim>\<open>sort_and_fill\<close> enabled, the default, the same holds of the chart with
  the key and the chart without it, whose rows are the rows of the table handed in and
  one synthesized record for every missing integer, in descending order of the axis: the
  chart has that many rows more than the table.
\<close>

theorem create_modulation_plan_transposes:
  assumes tc: "task_column = ''semitones'' \<or> task_column = ''fifths''"
    and col: "map Task data = map Num vs"
    and off: "(if task_column = ''fifths'' then name2fifths lib gk else name2pc lib gk) = Some t"
  shows "(\<exists>c. create_modulation_plan lib data task_column False title (Some gk) ph colors = Inr c
            \<and> length (chart_data c) = length data
            \<and> map Resource (chart_data c) = map Resource data
            \<and> map Start (chart_data c) = map Start data
            \<and> map Finish (chart_data c) = map Finish data
            \<and> map Task (chart_data c) =
                map (\<lambda>v. Name ((if task_column = ''fifths'' then fifths2name lib
                                 else midi2name lib) (v + t))) vs)
       \<and> (vs \<noteq> [] \<longrightarrow>
            (\<exists>c c0 ks missing.
               distinct missing
             \<and> set missing =
                 {m. min 0 (Min (set vs)) \<le> m \<and> m \<le> Max (set vs) \<and> m \<notin> set vs}
             \<and> create_modulation_plan lib data task_column True title None ph colors = Inr c0
             \<and> mset (chart_data c0) =
                 mset data
               + mset (map (\<lambda>m. \<lparr>Start = 0, Finish = 0, Resource = ''local'', Task = Num m,
                                   Description = None\<rparr>) missing)
             \<and> map Task (chart_data c0) = map Num ks
             \<and> mset ks = mset vs + mset missing
             \<and> sorted_wrt (\<lambda>a b. a \<ge> b) ks
             \<and> create_modulation_plan lib data task_column True title (Some gk) ph colors = Inr c
             \<and> length (chart_data c) = length data + length missing
             \<and> map Resource (chart_data c) = map Resource (chart_data c0)
             \<and> map Start (chart_data c) = map Start (chart_data c0)
             \<and> map Finish (chart_data c) = map Finish (chart_data c0)
             \<and> map Task (chart_data c) =
                 map (\<lambda>v. Name ((if task_column = ''fifths'' then fifths2name lib
                                  else midi2name lib) (v + t))) ks))"
proof (intro conjI impI)
  let ?g = "\<lambda>v. Name ((if task_column = ''fifths'' then fifths2name lib else midi2name lib) (v + t))"
  have rows: "(if False then sort_and_fill_rows task_column data else Inr data) = Inr data"
    by simp
  have len: "length data = length vs" using col by (metis length_map)
  obtain c
    where c: "create_modulation_plan lib data task_column False title (Some gk) ph colors = Inr c"
      and cd: "chart_data c = map (\<lambda>(r, k). r\<lparr>Task := ?g k\<rparr>) (zip data vs)"
    using plan_with_key [OF tc rows col off, of title ph colors] by blast
  have l: "length (chart_data c) = length data" using cd len by simp
  note f = map_field_zip_update [OF len, of ?g, folded cd]
  from c l f(3) f(1) f(2) f(5) show "\<exists>c. create_modulation_plan lib data task_column False title (Some gk) ph colors
                  = Inr c
            \<and> length (chart_data c) = length data
            \<and> map Resource (chart_data c) = map Resource data
            \<and> map Start (chart_data c) = map Start data
            \<and> map Finish (chart_data c) = map Finish data
            \<and> map Task (chart_data c) = map ?g vs"
    by blast
next
  let ?g = "\<lambda>v. Name ((if task_column = ''fifths'' then fifths2name lib else midi2name lib) (v + t))"
  assume ne: "vs \<noteq> []"
  obtain rows ks missing
    where run: "sort_and_fill_rows task_column data = Inr rows"
      and d: "distinct missing"
      and e: "set missing =
                {m. min 0 (Min (set vs)) \<le> m \<and> m \<le> Max (set vs) \<and> m \<notin> set vs}"
      and m: "mset rows = mset data + mset (map missing_record missing)"
      and k: "map Task rows = map Num ks"
      and a: "mset ks = mset vs + mset missing"
      and s: "sorted_wrt (\<lambda>a b. a \<ge> b) ks"
    using sort_and_fill_rows_filled [OF tc col ne] by blast
  have rows: "(if True then sort_and_fill_rows task_column data else Inr data) = Inr rows"
    using run by simp
  have len: "length rows = length ks" using k by (metis length_map)
  have "size (mset rows) = size (mset data) + size (mset (map missing_record missing))"
    unfolding m by simp
  then have count: "length rows = length data + length missing" by simp
  obtain c0
    where c0: "create_modulation_plan lib data task_column True title None ph colors = Inr c0"
      and cd0: "chart_data c0 = rows"
    using plan_without_key [OF rows, of lib title ph colors] by blast
  obtain c
    where c: "create_modulation_plan lib data task_column True title (Some gk) ph colors = Inr c"
      and cd: "chart_data c = map (\<lambda>(r, k). r\<lparr>Task := ?g k\<rparr>) (zip rows ks)"
    using plan_with_key [OF tc rows k off, of title ph colors] by blast
  have l: "length (chart_data c) = length data + length missing"
    using cd len count by simp
  note f = map_field_zip_update [OF len, of ?g, folded cd]
  note m' = m [unfolded missing_record_fun, folded cd0]
  note k' = k [folded cd0]
  from d e c0 m' k' a s c l f(3) [folded cd0] f(1) [folded cd0] f(2) [folded cd0] f(5)
  show "\<exists>c c0 ks missing.
               distinct missing
             \<and> set missing =
                 {m. min 0 (Min (set vs)) \<le> m \<and> m \<le> Max (set vs) \<and> m \<notin> set vs}
             \<and> create_modulation_plan lib data task_column True title None ph colors = Inr c0
             \<and> mset (chart_data c0) =
                 mset data
               + mset (map (\<lambda>m. \<lparr>Start = 0, Finish = 0, Resource = ''local'', Task = Num m,
                                   Description = None\<rparr>) missing)
             \<and> map Task (chart_data c0) = map Num ks
             \<and> mset ks = mset vs + mset missing
             \<and> sorted_wrt (\<lambda>a b. a \<ge> b) ks
             \<and> create_modulation_plan lib data task_column True title (Some gk) ph colors = Inr c
             \<and> length (chart_data c) = length data + length missing
             \<and> map Resource (chart_data c) = map Resource (chart_data c0)
             \<and> map Start (chart_data c) = map Start (chart_data c0)
             \<and> map Finish (chart_data c) = map Finish (chart_data c0)
             \<and> map Task (chart_data c) = map ?g ks"
    by blast
qed

theorem create_modulation_plan_transposes_witness:
  "(\<exists>c. create_modulation_plan ms3_sample ex_intervals ''fifths'' False ''plan'' (Some ''Bb'')
          (None :: rat list option) None = Inr c
      \<and> length (chart_data c) = 2
      \<and> map Resource (chart_data c) = [''local'', ''applied'']
      \<and> map Start (chart_data c) = [1, 5 / 2]
      \<and> map Finish (chart_data c) = [5 / 2, 4]
      \<and> map Task (chart_data c) = [Name ''C'', Name ''Eb''])
   \<and> (\<exists>c. create_modulation_plan ms3_sample ex_intervals ''fifths'' True ''plan'' (Some ''Bb'')
          (None :: rat list option) None = Inr c
      \<and> length (chart_data c) = 4
      \<and> mset (map Resource (chart_data c)) = mset [''local'', ''applied'', ''local'', ''local'']
      \<and> mset (map Start (chart_data c)) = mset [1, 5 / 2, 0, 0]
      \<and> mset (map Finish (chart_data c)) = mset [5 / 2, 4, 0, 0]
      \<and> map Task (chart_data c) = [Name ''C'', Name ''F'', Name ''Bb'', Name ''Eb''])"
proof -
  have col: "map Task ex_intervals = map Num [2, - 1]"
    by (simp add: ex_intervals_def)
  have s: "{m::int. min 0 (Min (set [2, - 1])) \<le> m \<and> m \<le> Max (set [2, - 1])
                  \<and> m \<notin> set [2, - 1]} = set [0, 1]"
    by auto
  have tc: "''fifths'' = ''semitones'' \<or> ''fifths'' = ''fifths''"
    and ne: "[2, - 1 :: int] \<noteq> []"
    by simp_all
  have off: "(if ''fifths'' = ''fifths'' then name2fifths ms3_sample ''Bb''
              else name2pc ms3_sample ''Bb'') = Some (- 2)"
    using ex_offset_Bb by simp
  note t = create_modulation_plan_transposes [OF tc col off, of "''plan''"
      "None :: rat list option" None, unfolded s if_P [OF refl]]
  from t [THEN conjunct1] obtain c1
    where c1: "create_modulation_plan ms3_sample ex_intervals ''fifths'' False ''plan''
                 (Some ''Bb'') (None :: rat list option) None = Inr c1"
      and l1: "length (chart_data c1) = length ex_intervals"
      and r1: "map Resource (chart_data c1) = map Resource ex_intervals"
      and s1: "map Start (chart_data c1) = map Start ex_intervals"
      and f1: "map Finish (chart_data c1) = map Finish ex_intervals"
      and t1: "map Task (chart_data c1) =
                 map (\<lambda>v. Name (fifths2name ms3_sample (v + - 2))) [2, - 1]"
    by (elim exE, elim conjE) (rule that)
  have a1: "length (chart_data c1) = 2"
    "map Resource (chart_data c1) = [''local'', ''applied'']"
    "map Start (chart_data c1) = [1, 5 / 2]"
    "map Finish (chart_data c1) = [5 / 2, 4]"
    unfolding l1 r1 s1 f1 by (simp_all add: ex_intervals_def)
  have a2: "map Task (chart_data c1) = [Name ''C'', Name ''Eb'']"
    unfolding t1 by (simp add: ms3_sample_def ex_fifths_names ex_flat_names)
  from t [THEN conjunct2, rule_format, OF ne] obtain c c0 ks missing
    where d: "distinct missing" and e: "set missing = set [0, 1 :: int]"
      and c0: "create_modulation_plan ms3_sample ex_intervals ''fifths'' True ''plan'' None
                 (None :: rat list option) None = Inr c0"
      and m: "mset (chart_data c0) =
                mset ex_intervals
              + mset (map (\<lambda>m. \<lparr>Start = 0, Finish = 0, Resource = ''local'', Task = Num m,
                                  Description = None\<rparr>) missing)"
      and k: "map Task (chart_data c0) = map Num ks"
      and a: "mset ks = mset [2, - 1] + mset missing"
      and srt: "sorted_wrt (\<lambda>a b. a \<ge> b) ks"
      and c: "create_modulation_plan ms3_sample ex_intervals ''fifths'' True ''plan''
                (Some ''Bb'') (None :: rat list option) None = Inr c"
      and l: "length (chart_data c) = length ex_intervals + length missing"
      and r: "map Resource (chart_data c) = map Resource (chart_data c0)"
      and st: "map Start (chart_data c) = map Start (chart_data c0)"
      and fi: "map Finish (chart_data c) = map Finish (chart_data c0)"
      and ta: "map Task (chart_data c) = map (\<lambda>v. Name (fifths2name ms3_sample (v + - 2))) ks"
    by (elim exE, elim conjE) (rule that)
  have d2: "distinct [0, 1 :: int]" by simp
  have mm: "mset missing = mset [0, 1]"
    using d d2 e by (simp only: set_eq_iff_mset_eq_distinct)
  have "length missing = length [0, 1 :: int]" using mm by (rule mset_eq_length)
  then have b1: "length (chart_data c) = 4" unfolding l by (simp add: ex_intervals_def)
  have "mset ks = mset ([2, - 1] @ [0, 1])" using a mm by simp
  then have "ks = rev (sort ([2, - 1] @ [0, 1]))"
    by (rule sorted_desc_unique [OF srt])
  then have ks: "ks = [2, 1, 0, - 1]" by simp
  have b2: "map Task (chart_data c) = [Name ''C'', Name ''F'', Name ''Bb'', Name ''Eb'']"
    unfolding ta ks by (simp add: ms3_sample_def ex_fifths_names ex_flat_names)
  note m' = m [unfolded mset_map_distinct_set [OF d d2 e]]
  have "mset (map Resource (chart_data c)) = image_mset Resource (mset (chart_data c0))"
    unfolding r by simp
  then have b3: "mset (map Resource (chart_data c)) =
      mset [''local'', ''applied'', ''local'', ''local'']"
    unfolding m' by (simp add: ex_intervals_def)
  have "mset (map Start (chart_data c)) = image_mset Start (mset (chart_data c0))"
    unfolding st by simp
  then have b4: "mset (map Start (chart_data c)) = mset [1, 5 / 2, 0, 0]"
    unfolding m' by (simp add: ex_intervals_def)
  have "mset (map Finish (chart_data c)) = image_mset Finish (mset (chart_data c0))"
    unfolding fi by simp
  then have b5: "mset (map Finish (chart_data c)) = mset [5 / 2, 4, 0, 0]"
    unfolding m' by (simp add: ex_intervals_def)
  show ?thesis
    by (intro conjI exI [of _ c1] exI [of _ c]) (rule c1 a1 a2 c b1 b2 b3 b4 b5)+
qed

text \<open>
  The axis column of the transposed plan holds names, not the shifted numbers: with the
  key G (offset 1) a row at 2 on the line of fifths is not at the number 3 afterwards. And
  with \<^verbatim>\<open>sort_and_fill\<close> enabled the chart of a table of one row at 2 has three rows.
\<close>

lemma ex_keyed_default_plan:
  "create_modulation_plan ms3_sample [ex_row 2] ''fifths'' True ''plan'' (Some ''G'')
     (None :: rat list option) None =
   Inr \<lparr>chart_data =
          [\<lparr>Start = 1, Finish = 2, Resource = ''applied'', Task = Name ''A'', Description = None\<rparr>,
           \<lparr>Start = 0, Finish = 0, Resource = ''local'', Task = Name ''D'', Description = None\<rparr>,
           \<lparr>Start = 0, Finish = 0, Resource = ''local'', Task = Name ''G'', Description = None\<rparr>],
        chart_title = ''plan (G)'',
        chart_colors = KEY_COLORS,
        xaxis_title = ''Measures'',
        yaxis_title = ''Tonicized keys (fifths)'',
        chart_shapes = []\<rparr>"
  by code_simp

lemma ex_keyed_unsorted_plan:
  "create_modulation_plan ms3_sample [ex_row 2] ''fifths'' False ''plan'' (Some ''G'')
     (None :: rat list option) None =
   Inr \<lparr>chart_data =
          [\<lparr>Start = 1, Finish = 2, Resource = ''applied'', Task = Name ''A'', Description = None\<rparr>],
        chart_title = ''plan (G)'',
        chart_colors = KEY_COLORS,
        xaxis_title = ''Measures'',
        yaxis_title = ''Tonicized keys (fifths)'',
        chart_shapes = []\<rparr>"
  by code_simp

theorem transposed_axis_not_numeric:
  "\<not> (\<exists>c. create_modulation_plan ms3_sample [ex_row 2] ''fifths'' False ''plan'' (Some ''G'')
            (None :: rat list option) None = Inr c
        \<and> map Task (chart_data c) = [Num (2 + 1)])
   \<and> \<not> (\<exists>c. create_modulation_plan ms3_sample [ex_row 2] ''fifths'' True ''plan'' (Some ''G'')
            (None :: rat list option) None = Inr c
        \<and> length (chart_data c) = length [ex_row 2])"
  unfolding ex_keyed_default_plan ex_keyed_unsorted_plan by simp

section \<open>Properties of the phrase ends\<close>

lemma those_eq_Some_iff: "those xs = Some ys \<longleftrightarrow> xs = map Some ys"
proof (induction xs arbitrary: ys)
  case Nil
  then show ?case by auto
next
  case (Cons x xs)
  then show ?case by (cases x; cases ys) (auto split: option.splits)
qed












section \<open>Properties of the boolean converter\<close>

lemma char_of_nat_eq_iff: "char_of (n::nat) = c \<longleftrightarrow> n mod 256 = of_char c"
  by (simp add: char_of_eq_iff take_bit_eq_mod)

lemma char_eq_char_of_nat_iff: "c = char_of (n::nat) \<longleftrightarrow> n mod 256 = of_char c"
  using char_of_nat_eq_iff [of n c] by auto

lemma lower_char_variant:
  assumes "l \<in> set ''truefals''" "c = l \<or> c = upper_char l"
  shows "lower_char c = l"
  using assms by (auto simp: upper_char_def lower_char_def char_of_nat_eq_iff less_eq_char_def)

lemma of_char_lower_char:
  "of_char (lower_char c) = (if CHR ''A'' \<le> c \<and> c \<le> CHR ''Z'' then of_char c + 32 else (of_char c :: nat))"
  by (auto simp: lower_char_def less_eq_char_def)

lemma lower_char_eq_letter:
  assumes "l \<in> set ''truefals''" "lower_char c = l"
  shows "c = l \<or> c = upper_char l"
proof (cases "CHR ''A'' \<le> c \<and> c \<le> CHR ''Z''")
  case False
  then show ?thesis using assms(2) by (auto simp: lower_char_def)
next
  case True
  then have "(of_char l :: nat) = of_char c + 32"
    using of_char_lower_char [of c] assms(2) by simp
  then have "(of_char c :: nat) = of_char l - 32" by simp
  then have "c = char_of (of_char l - (32::nat))"
    by (metis char_of_char)
  then show ?thesis using assms(1) by (auto simp: upper_char_def less_eq_char_def)
qed

lemma lower_variant:
  assumes "list_all2 (\<lambda>c l. c = l \<or> c = upper_char l) t tok" "set tok \<subseteq> set ''truefals''"
  shows "lower t = tok"
  using assms
proof (induction rule: list_all2_induct)
  case Nil
  then show ?case by (simp add: lower_def)
next
  case (Cons c t l tok)
  then show ?case using lower_char_variant [of l c] by (simp add: lower_def)
qed

lemma variant_of_lower:
  assumes "set (lower t) \<subseteq> set ''truefals''"
  shows "list_all2 (\<lambda>c l. c = l \<or> c = upper_char l) t (lower t)"
  using assms
proof (induction t)
  case Nil
  then show ?case by (simp add: lower_def)
next
  case (Cons c t)
  then show ?case using lower_char_eq_letter [of "lower_char c" c] by (simp add: lower_def)
qed

text \<open>
  Claim C6. A string that is \<^verbatim>\<open>t\<close> or \<^verbatim>\<open>true\<close> with any of its letters in upper case is
  converted to true, one that is \<^verbatim>\<open>f\<close> or \<^verbatim>\<open>false\<close> likewise to false. Every other
  value \<open>s\<close> is converted to the truth value of \<^verbatim>\<open>int(s)\<close> when \<^verbatim>\<open>int(s)\<close> succeeds and
  returned as it is when not. The converter has a value on every input: no exception
  leaves it.
\<close>

theorem int2bool_cases:
  "(\<forall>t tok. tok \<in> {''t'', ''true''} \<and> list_all2 (\<lambda>c l. c = l \<or> c = upper_char l) t tok
       \<longrightarrow> int2bool py_int (VStr t) = VBool True)
 \<and> (\<forall>t tok. tok \<in> {''f'', ''false''} \<and> list_all2 (\<lambda>c l. c = l \<or> c = upper_char l) t tok
       \<longrightarrow> int2bool py_int (VStr t) = VBool False)
 \<and> (\<forall>s. \<not> (\<exists>t tok. s = VStr t \<and> tok \<in> {''t'', ''true'', ''f'', ''false''}
               \<and> list_all2 (\<lambda>c l. c = l \<or> c = upper_char l) t tok)
       \<longrightarrow> int2bool py_int s = (case py_int s of Some n \<Rightarrow> VBool (n \<noteq> 0) | None \<Rightarrow> s))"
proof (intro conjI allI impI)
  fix t tok
  assume h: "tok \<in> {''t'', ''true''} \<and> list_all2 (\<lambda>c l. c = l \<or> c = upper_char l) t tok"
  then have "lower t = tok" by (intro lower_variant) auto
  then show "int2bool py_int (VStr t) = VBool True"
    using h by (auto simp: int2bool_def)
next
  fix t tok
  assume h: "tok \<in> {''f'', ''false''} \<and> list_all2 (\<lambda>c l. c = l \<or> c = upper_char l) t tok"
  then have "lower t = tok" by (intro lower_variant) auto
  then show "int2bool py_int (VStr t) = VBool False"
    using h by (auto simp: int2bool_def)
next
  fix s
  assume h: "\<not> (\<exists>t tok. s = VStr t \<and> tok \<in> {''t'', ''true'', ''f'', ''false''}
               \<and> list_all2 (\<lambda>c l. c = l \<or> c = upper_char l) t tok)"
  have "\<not> (case s of VStr t \<Rightarrow> lower t \<in> set [''t'', ''true'', ''f'', ''false''] | _ \<Rightarrow> False)"
  proof (cases s)
    case (VStr t)
    have "lower t \<notin> set [''t'', ''true'', ''f'', ''false'']"
    proof
      assume m: "lower t \<in> set [''t'', ''true'', ''f'', ''false'']"
      then have "set (lower t) \<subseteq> set ''truefals''" by auto
      then have "list_all2 (\<lambda>c l. c = l \<or> c = upper_char l) t (lower t)"
        by (rule variant_of_lower)
      then show False using h m VStr by auto
    qed
    then show ?thesis using VStr by simp
  qed simp_all
  then show "int2bool py_int s = (case py_int s of Some n \<Rightarrow> VBool (n \<noteq> 0) | None \<Rightarrow> s)"
    by (simp add: int2bool_def)
qed

lemma not_bool_word:
  assumes "lower t \<notin> set [''t'', ''true'', ''f'', ''false'']"
  shows "\<not> (\<exists>t' tok. VStr t = VStr t' \<and> tok \<in> {''t'', ''true'', ''f'', ''false''}
               \<and> list_all2 (\<lambda>c l. c = l \<or> c = upper_char l) t' tok)"
proof
  assume "\<exists>t' tok. VStr t = VStr t' \<and> tok \<in> {''t'', ''true'', ''f'', ''false''}
               \<and> list_all2 (\<lambda>c l. c = l \<or> c = upper_char l) t' tok"
  then obtain tok where tok: "tok \<in> {''t'', ''true'', ''f'', ''false''}"
    and v: "list_all2 (\<lambda>c l. c = l \<or> c = upper_char l) t tok" by auto
  have "lower t = tok" using v by (rule lower_variant) (use tok in auto)
  then show False using assms tok by auto
qed

theorem int2bool_cases_witness:
  "int2bool sample_int (VStr ''tRuE'') = VBool True
 \<and> int2bool sample_int (VStr ''F'') = VBool False
 \<and> int2bool sample_int (VStr ''-12'') = VBool True
 \<and> int2bool sample_int (VStr ''0'') = VBool False
 \<and> int2bool sample_int (VStr ''yes'') = VStr ''yes''
 \<and> int2bool sample_int VNull = VNull"
proof -
  note inst = int2bool_cases [of sample_int]
  have u: "upper_char (CHR ''r'') = CHR ''R''" "upper_char (CHR ''e'') = CHR ''E''"
    "upper_char (CHR ''f'') = CHR ''F''"
    by code_simp+
  have v1: "list_all2 (\<lambda>c l. c = l \<or> c = upper_char l) ''tRuE'' ''true''"
    and v2: "list_all2 (\<lambda>c l. c = l \<or> c = upper_char l) ''F'' ''f''"
    by (simp_all add: u)
  have a: "int2bool sample_int (VStr ''tRuE'') = VBool True"
    using inst [THEN conjunct1, rule_format, where tok = "''true''" and t = "''tRuE''"] v1
    by simp
  have b: "int2bool sample_int (VStr ''F'') = VBool False"
    using inst [THEN conjunct2, THEN conjunct1, rule_format, where tok = "''f''" and t = "''F''"] v2
    by simp
  have other: "\<And>s. \<not> (\<exists>t tok. s = VStr t \<and> tok \<in> {''t'', ''true'', ''f'', ''false''}
               \<and> list_all2 (\<lambda>c l. c = l \<or> c = upper_char l) t tok)
       \<Longrightarrow> int2bool sample_int s = (case sample_int s of Some n \<Rightarrow> VBool (n \<noteq> 0) | None \<Rightarrow> s)"
    using inst [THEN conjunct2, THEN conjunct2] by (rule allE) (rule mp)
  have l: "lower ''-12'' \<notin> set [''t'', ''true'', ''f'', ''false'']"
    "lower ''0'' \<notin> set [''t'', ''true'', ''f'', ''false'']"
    "lower ''yes'' \<notin> set [''t'', ''true'', ''f'', ''false'']"
    by code_simp+
  have n4: "\<not> (\<exists>t tok. VNull = VStr t \<and> tok \<in> {''t'', ''true'', ''f'', ''false''}
               \<and> list_all2 (\<lambda>c l. c = l \<or> c = upper_char l) t tok)"
    by simp
  have s: "sample_int (VStr ''-12'') = Some (- 12)" "sample_int (VStr ''0'') = Some 0"
    "sample_int (VStr ''yes'') = None" "sample_int VNull = None"
    by code_simp+
  show ?thesis
    using a b other [OF not_bool_word [OF l(1)]] other [OF not_bool_word [OF l(2)]]
      other [OF not_bool_word [OF l(3)]] other [OF n4] s by simp
qed

section \<open>Properties of the README update\<close>

lemma concat_readlines_from: "concat (readlines_from cur s) = cur @ s"
  by (induction s arbitrary: cur) auto

lemma concat_readlines: "concat (readlines s) = s"
  by (simp add: readlines_def concat_readlines_from)

lemma contains_iff: "contains pat s \<longleftrightarrow> (\<exists>ps ss. s = ps @ pat @ ss)"
proof (induction s)
  case Nil
  then show ?case by auto
next
  case (Cons c cs)
  show ?case
  proof
    assume "contains pat (c # cs)"
    then consider "take (length pat) (c # cs) = pat" | "contains pat cs" by auto
    then show "\<exists>ps ss. c # cs = ps @ pat @ ss"
    proof cases
      case 1
      then have "c # cs = [] @ pat @ drop (length pat) (c # cs)"
        by (metis append_Nil append_take_drop_id)
      then show ?thesis by blast
    next
      case 2
      then obtain ps ss where "cs = ps @ pat @ ss" using Cons.IH by blast
      then have "c # cs = (c # ps) @ pat @ ss" by simp
      then show ?thesis by blast
    qed
  next
    assume "\<exists>ps ss. c # cs = ps @ pat @ ss"
    then obtain ps ss where e: "c # cs = ps @ pat @ ss" by blast
    show "contains pat (c # cs)"
    proof (cases ps)
      case Nil
      then have "take (length pat) (c # cs) = pat" using e by simp
      then show ?thesis by simp
    next
      case (Cons p ps')
      then have "cs = ps' @ pat @ ss" using e by simp
      then show ?thesis using Cons.IH by auto
    qed
  qed
qed

lemma write_lines_no_marker:
  assumes "\<forall>line \<in> set lines. \<not> contains ''# Overview'' line"
  shows "write_lines lines = concat lines @ [CHR 0x0A, CHR 0x0A]"
  using assms by (induction lines) auto

lemma write_lines_marker:
  assumes "i < length lines" "contains ''# Overview'' (lines ! i)"
    and "\<forall>j < i. \<not> contains ''# Overview'' (lines ! j)"
  shows "write_lines lines = concat (take i lines)"
  using assms
proof (induction lines arbitrary: i)
  case Nil
  then show ?case by simp
next
  case (Cons line lines)
  show ?case
  proof (cases i)
    case 0
    then show ?thesis using Cons.prems by simp
  next
    case (Suc k)
    have "\<not> contains ''# Overview'' line" using Cons.prems(3) Suc by auto
    moreover have "write_lines lines = concat (take k lines)"
    proof (rule Cons.IH)
      show "k < length lines" using Cons.prems(1) Suc by simp
      show "contains ''# Overview'' (lines ! k)" using Cons.prems(2) Suc by simp
      show "\<forall>j<k. \<not> contains ''# Overview'' (lines ! j)"
        using Cons.prems(3) Suc by auto
    qed
    ultimately show ?thesis using Suc by simp
  qed
qed

text \<open>
  Claim C7. Where the file exists and line \<open>i\<close> is the first of its lines to contain
  \<^verbatim>\<open># Overview\<close>, the new file is the lines before line \<open>i\<close>, as they were and in
  their order, followed by the new overview: line \<open>i\<close> and all that followed it are
  gone. Where the file exists and no line contains the marker, the new file is the old
  text, two newlines and the new overview. Where the file does not exist, the new file
  is two newlines and the new overview. No other file changes.
\<close>

theorem write_md_replaces_overview:
  "(\<forall>content i.
      files w md_path = Some content \<and> i < length (readlines content)
    \<and> contains ''# Overview'' (readlines content ! i)
    \<and> (\<forall>j < i. \<not> contains ''# Overview'' (readlines content ! j))
    \<longrightarrow> files (write_md md_str md_path w) md_path =
          Some (concat (take i (readlines content)) @ md_str))
 \<and> (\<forall>content.
      files w md_path = Some content
    \<and> (\<forall>line \<in> set (readlines content). \<not> contains ''# Overview'' line)
    \<longrightarrow> files (write_md md_str md_path w) md_path =
          Some (content @ [CHR 0x0A, CHR 0x0A] @ md_str))
 \<and> (files w md_path = None
    \<longrightarrow> files (write_md md_str md_path w) md_path = Some ([CHR 0x0A, CHR 0x0A] @ md_str))
 \<and> (\<forall>p. p \<noteq> md_path \<longrightarrow> files (write_md md_str md_path w) p = files w p)"
proof (intro conjI allI impI)
  fix content i
  assume h: "files w md_path = Some content \<and> i < length (readlines content)
    \<and> contains ''# Overview'' (readlines content ! i)
    \<and> (\<forall>j < i. \<not> contains ''# Overview'' (readlines content ! j))"
  then have "write_lines (readlines content) = concat (take i (readlines content))"
    by (intro write_lines_marker) auto
  then show "files (write_md md_str md_path w) md_path =
          Some (concat (take i (readlines content)) @ md_str)"
    using h by (simp add: write_md_def)
next
  fix content
  assume h: "files w md_path = Some content
    \<and> (\<forall>line \<in> set (readlines content). \<not> contains ''# Overview'' line)"
  then have "write_lines (readlines content) = concat (readlines content) @ [CHR 0x0A, CHR 0x0A]"
    by (intro write_lines_no_marker) auto
  then show "files (write_md md_str md_path w) md_path =
          Some (content @ [CHR 0x0A, CHR 0x0A] @ md_str)"
    using h by (simp add: write_md_def concat_readlines)
next
  assume "files w md_path = None"
  then show "files (write_md md_str md_path w) md_path = Some ([CHR 0x0A, CHR 0x0A] @ md_str)"
    by (simp add: write_md_def)
next
  fix p
  assume "p \<noteq> md_path"
  then show "files (write_md md_str md_path w) p = files w p"
    by (simp add: write_md_def split: option.splits)
qed

theorem write_md_replaces_overview_witness:
  "files (write_md ''## Overview NEW'' ''out/README.md'' ex_world) ''out/README.md'' =
     Some (''# Corpus'' @ [CHR 0x0A] @ ''Some text.'' @ [CHR 0x0A] @ ''## Overview NEW'')
 \<and> files (write_md ''## Overview NEW'' ''out/NOTES.md'' ex_world) ''out/NOTES.md'' =
     Some (''Notes'' @ [CHR 0x0A] @ [CHR 0x0A, CHR 0x0A] @ ''## Overview NEW'')
 \<and> files (write_md ''## Overview NEW'' ''out/NEW.md'' ex_world) ''out/NEW.md'' =
     Some ([CHR 0x0A, CHR 0x0A] @ ''## Overview NEW'')
 \<and> files (write_md ''## Overview NEW'' ''out/NEW.md'' ex_world) ''out/README.md'' =
     Some ex_readme"
proof -
  have f: "files ex_world ''out/README.md'' = Some ex_readme"
    "files ex_world ''out/NOTES.md'' = Some (''Notes'' @ [CHR 0x0A])"
    "files ex_world ''out/NEW.md'' = None"
    by (simp_all add: ex_world_def)
  have r: "readlines ex_readme =
      [''# Corpus'' @ [CHR 0x0A], ''Some text.'' @ [CHR 0x0A], ''## Overview'' @ [CHR 0x0A],
       ''old table'' @ [CHR 0x0A]]"
    "readlines (''Notes'' @ [CHR 0x0A]) = [''Notes'' @ [CHR 0x0A]]"
    by code_simp+
  have c: "\<not> contains ''# Overview'' (''# Corpus'' @ [CHR 0x0A])"
    "\<not> contains ''# Overview'' (''Some text.'' @ [CHR 0x0A])"
    "contains ''# Overview'' (''## Overview'' @ [CHR 0x0A])"
    "\<not> contains ''# Overview'' (''Notes'' @ [CHR 0x0A])"
    by code_simp+
  have first: "2 < length (readlines ex_readme)
    \<and> contains ''# Overview'' (readlines ex_readme ! 2)
    \<and> (\<forall>j < 2. \<not> contains ''# Overview'' (readlines ex_readme ! j))"
    unfolding r using c by (simp add: less_Suc_eq numeral_2_eq_2)
  have t2: "take 2 (readlines ex_readme) = [''# Corpus'' @ [CHR 0x0A], ''Some text.'' @ [CHR 0x0A]]"
    unfolding r by (simp add: numeral_2_eq_2)
  have a: "files (write_md ''## Overview NEW'' ''out/README.md'' ex_world) ''out/README.md'' =
      Some (concat (take 2 (readlines ex_readme)) @ ''## Overview NEW'')"
    using write_md_replaces_overview [of ex_world "''out/README.md''" "''## Overview NEW''",
        THEN conjunct1, rule_format, where content = ex_readme and i = 2] f(1) first
    by blast
  have none: "\<forall>line \<in> set (readlines (''Notes'' @ [CHR 0x0A])). \<not> contains ''# Overview'' line"
    unfolding r using c by simp
  have b: "files (write_md ''## Overview NEW'' ''out/NOTES.md'' ex_world) ''out/NOTES.md'' =
      Some ((''Notes'' @ [CHR 0x0A]) @ [CHR 0x0A, CHR 0x0A] @ ''## Overview NEW'')"
    using write_md_replaces_overview [of ex_world "''out/NOTES.md''" "''## Overview NEW''",
        THEN conjunct2, THEN conjunct1, rule_format, where content = "''Notes'' @ [CHR 0x0A]"]
      f(2) none
    by blast
  have d: "files (write_md ''## Overview NEW'' ''out/NEW.md'' ex_world) ''out/NEW.md'' =
      Some ([CHR 0x0A, CHR 0x0A] @ ''## Overview NEW'')"
    using write_md_replaces_overview [of ex_world "''out/NEW.md''" "''## Overview NEW''",
        THEN conjunct2, THEN conjunct2, THEN conjunct1] f(3)
    by (rule mp)
  have e: "files (write_md ''## Overview NEW'' ''out/NEW.md'' ex_world) ''out/README.md'' =
      Some ex_readme"
    using write_md_replaces_overview [of ex_world "''out/NEW.md''" "''## Overview NEW''",
        THEN conjunct2, THEN conjunct2, THEN conjunct2, rule_format, of "''out/README.md''"] f(1)
    by simp
  show ?thesis using a b d e unfolding t2 by simp
qed

section \<open>Properties of the aggregator\<close>

subsection \<open>No metadata found\<close>

lemma found_tsvs_empty_iff:
  "found_tsvs rdir = [] \<longleftrightarrow> (\<forall>(subdir, tsv) \<in> set rdir. tsv = None)"
proof -
  have "found_tsvs rdir = [] \<longleftrightarrow>
          (\<forall>x \<in> set (sort_key fst rdir). (\<lambda>(subdir, tsv). map_option (Pair subdir) tsv) x = None)"
    unfolding found_tsvs_def List.map_filter_def
    by (auto simp: filter_empty_conv)
  then show ?thesis by (auto simp: case_prod_unfold)
qed

text \<open>
  Claim C4. When no immediate child directory of the root has a \<^verbatim>\<open>metadata.tsv\<close>,
  \<^verbatim>\<open>concat_metadata\<close> returns the empty table and raises nothing, and \<^verbatim>\<open>main\<close> returns
  normally after one more printed line, which says that no metadata was found; it
  leaves every file as it was, so neither the TSV nor the README is written.
\<close>

theorem no_metadata_no_output:
  assumes "\<forall>(subdir, tsv) \<in> set rdir. tsv = None"
  shows "concat_metadata lib rdir = Inr \<lparr>index = [], cols = []\<rparr>
       \<and> main lib dir rdir out w =
           (Inr (),
            w\<lparr>stdout := stdout w @
               [''No metadata found in the child directories of '' @ dir @ ''.'']\<rparr>)
       \<and> files (snd (main lib dir rdir out w)) = files w"
proof -
  have "found_tsvs rdir = []" using assms by (simp only: found_tsvs_empty_iff)
  then have c: "concat_metadata lib rdir = Inr \<lparr>index = [], cols = []\<rparr>"
    by (simp add: concat_metadata_def)
  then show ?thesis by (simp add: main_def)
qed

theorem no_metadata_no_output_witness:
  "concat_metadata sample_pylib [(''c'', None), (''docs'', None)] = Inr \<lparr>index = [], cols = []\<rparr>
 \<and> main sample_pylib ''repo'' [(''c'', None), (''docs'', None)] ''out'' ex_world =
     (Inr (),
      ex_world\<lparr>stdout := stdout ex_world @
         [''No metadata found in the child directories of '' @ ''repo'' @ ''.'']\<rparr>)
 \<and> files (snd (main sample_pylib ''repo'' [(''c'', None), (''docs'', None)] ''out'' ex_world)) =
     files ex_world"
  using no_metadata_no_output [of "[(''c'', None), (''docs'', None)]" sample_pylib "''repo''"
      "''out''" ex_world]
  by simp

subsection \<open>Columns of a table and the conversion loop\<close>

lemma map_of_replace_other:
  "c \<noteq> name \<Longrightarrow>
     map_of (map (\<lambda>(n, vs). if n = name then (n, vals) else (n, vs)) cs) c = map_of cs c"
  by (induction cs) auto

lemma map_of_replace_same:
  "name \<in> fst ` set cs \<Longrightarrow>
     map_of (map (\<lambda>(n, vs). if n = name then (n, vals) else (n, vs)) cs) name = Some vals"
  by (induction cs) auto

lemma map_replace_absent:
  "name \<notin> fst ` set cs \<Longrightarrow>
     map (\<lambda>(n, vs). if n = name then (n, vals) else (n, vs)) cs = cs"
  by (induction cs) auto

lemma map_of_map_replace:
  "map_of (map (\<lambda>(n, vs). if n = name then (n, vals) else (n, vs)) cs) c =
     (if c = name \<and> name \<in> fst ` set cs then Some vals else map_of cs c)"
proof (cases "c = name")
  case False
  then show ?thesis by (simp add: map_of_replace_other)
next
  case True
  show ?thesis
  proof (cases "name \<in> fst ` set cs")
    case True
    then show ?thesis using \<open>c = name\<close> by (simp add: map_of_replace_same)
  next
    case False
    then show ?thesis using \<open>c = name\<close> by (simp add: map_replace_absent)
  qed
qed

lemma map_of_set_column:
  "map_of (cols (set_column name vals df)) c =
     (if c = name \<and> name \<in> set (columns df) then Some vals else map_of (cols df) c)"
  by (simp add: set_column_def columns_def map_of_map_replace)

lemma columns_set_column [simp]: "columns (set_column name vals df) = columns df"
proof -
  have "map fst (map (\<lambda>(n, vs). if n = name then (n, vals) else (n, vs)) cs) = map fst cs" for cs
    by (induction cs) (simp_all add: case_prod_unfold)
  then show ?thesis by (simp add: set_column_def columns_def)
qed

lemma index_set_column [simp]: "index (set_column name vals df) = index df"
  by (simp add: set_column_def)

lemma map_of_cols_Some_columns:
  assumes "map_of (cols df) c = Some vs"
  shows "c \<in> set (columns df)"
proof -
  have "(c, vs) \<in> set (cols df)" using assms by (rule map_of_SomeD)
  then show ?thesis unfolding columns_def by force
qed

lemma convert_loop_effect:
  assumes "convert_loop lib r bcs w = (res, w')"
  shows "files w' = files w \<and> next_ref w' = next_ref w
       \<and> (\<forall>q. q \<noteq> r \<longrightarrow> objects w' q = objects w q)
       \<and> index (objects w' r) = index (objects w r)
       \<and> columns (objects w' r) = columns (objects w r)
       \<and> (\<forall>c. c \<notin> set bcs \<longrightarrow> map_of (cols (objects w' r)) c = map_of (cols (objects w r)) c)
       \<and> (\<forall>c vs. map_of (cols (objects w r)) c = Some vs \<and> list_all is_null vs
             \<longrightarrow> map_of (cols (objects w' r)) c = Some vs)"
  using assms
proof (induction bcs arbitrary: w)
  case Nil
  then show ?case by simp
next
  case (Cons bc bcs)
  show ?case
  proof (cases "map_of (cols (objects w r)) bc")
    case None
    then show ?thesis using Cons.prems by simp
  next
    case (Some vals)
    show ?thesis
    proof (cases "list_all is_null vals")
      case True
      then have "convert_loop lib r bcs w = (res, w')" using Cons.prems Some by simp
      from Cons.IH [OF this] show ?thesis by simp
    next
      case False
      show ?thesis
      proof (cases "astype_boolean_Int64 lib vals")
        case None
        then show ?thesis using Cons.prems Some False by auto
      next
        case (Some ints)
        let ?w1 = "w\<lparr>objects := (objects w)(r := set_column bc ints (objects w r)),
                      stdout := stdout w @
                        [''Transformed booleans in the column '' @ bc @ '' to integers.'']\<rparr>"
        have run: "convert_loop lib r bcs ?w1 = (res, w')"
          using Cons.prems \<open>map_of (cols (objects w r)) bc = Some vals\<close> False Some by simp
        note ih = Cons.IH [OF run]
        have bcvals: "bc \<in> set (columns (objects w r))"
          using \<open>map_of (cols (objects w r)) bc = Some vals\<close> by (rule map_of_cols_Some_columns)
        have nn: "\<And>c vs. map_of (cols (objects w r)) c = Some vs \<Longrightarrow> list_all is_null vs \<Longrightarrow> c \<noteq> bc"
          using \<open>map_of (cols (objects w r)) bc = Some vals\<close> False by auto
        show ?thesis using ih nn by (auto simp: map_of_set_column)
      qed
    qed
  qed
qed

lemma convert_loop_result:
  assumes "set bcs \<subseteq> set (columns (objects w r))"
  shows "fst (convert_loop lib r bcs w) = Inl TypeError \<or> fst (convert_loop lib r bcs w) = Inr (Some r)"
  using assms
proof (induction bcs arbitrary: w)
  case Nil
  then show ?case by simp
next
  case (Cons bc bcs)
  then obtain vals where v: "map_of (cols (objects w r)) bc = Some vals"
    by (metis columns_def list.set_intros(1) map_of_eq_None_iff not_Some_eq set_map subsetD)
  show ?case
  proof (cases "list_all is_null vals")
    case True
    then show ?thesis using Cons v by simp
  next
    case False
    show ?thesis
    proof (cases "astype_boolean_Int64 lib vals")
      case None
      then show ?thesis using v False by simp
    next
      case (Some ints)
      let ?w1 = "w\<lparr>objects := (objects w)(r := set_column bc ints (objects w r)),
                      stdout := stdout w @
                        [''Transformed booleans in the column '' @ bc @ '' to integers.'']\<rparr>"
      have "set bcs \<subseteq> set (columns (objects ?w1 r))" using Cons.prems by simp
      from Cons.IH [OF this] show ?thesis using v False Some by simp
    qed
  qed
qed

lemma convert_loop_converted:
  assumes "convert_loop lib r bcs w = (Inr (Some r'), w')" "distinct bcs"
    and "c \<in> set bcs" "map_of (cols (objects w r)) c = Some vs" "\<not> list_all is_null vs"
  shows "\<exists>ints. astype_boolean_Int64 lib vs = Some ints \<and> map_of (cols (objects w' r)) c = Some ints"
  using assms
proof (induction bcs arbitrary: w)
  case Nil
  then show ?case by simp
next
  case (Cons bc bcs)
  obtain vals where v: "map_of (cols (objects w r)) bc = Some vals"
    using Cons.prems(1) by (cases "map_of (cols (objects w r)) bc") auto
  show ?case
  proof (cases "list_all is_null vals")
    case True
    then have run: "convert_loop lib r bcs w = (Inr (Some r'), w')" using Cons.prems v by simp
    have "c \<noteq> bc" using True v Cons.prems(4,5) by auto
    then have "c \<in> set bcs" using Cons.prems(3) by simp
    from Cons.IH [OF run _ this Cons.prems(4,5)] Cons.prems(2) show ?thesis by simp
  next
    case False
    obtain ints where i: "astype_boolean_Int64 lib vals = Some ints"
      using Cons.prems(1) v False by (cases "astype_boolean_Int64 lib vals") auto
    let ?w1 = "w\<lparr>objects := (objects w)(r := set_column bc ints (objects w r)),
                      stdout := stdout w @
                        [''Transformed booleans in the column '' @ bc @ '' to integers.'']\<rparr>"
    have run: "convert_loop lib r bcs ?w1 = (Inr (Some r'), w')"
      using Cons.prems(1) v False i by simp
    have bcin: "bc \<in> set (columns (objects w r))" using v by (rule map_of_cols_Some_columns)
    show ?thesis
    proof (cases "c = bc")
      case True
      then have "vs = vals" using v Cons.prems(4) by simp
      moreover have "bc \<notin> set bcs" using Cons.prems(2) by simp
      then have "map_of (cols (objects w' r)) bc = map_of (cols (objects ?w1 r)) bc"
        using convert_loop_effect [OF run] by blast
      ultimately show ?thesis using True i bcin by (simp add: map_of_set_column)
    next
      case False
      then have cin: "c \<in> set bcs" using Cons.prems(3) by simp
      have "map_of (cols (objects ?w1 r)) c = Some vs"
        using False Cons.prems(4) by (simp add: map_of_set_column)
      from Cons.IH [OF run _ cin this Cons.prems(5)] Cons.prems(2) show ?thesis by simp
    qed
  qed
qed

subsection \<open>The boolean columns of the TSV\<close>

lemma convert_loop_succeeds:
  assumes "distinct bcs" "set bcs \<subseteq> set (columns (objects w r))"
    and "\<forall>c vs. c \<in> set bcs \<and> map_of (cols (objects w r)) c = Some vs \<and> \<not> list_all is_null vs
           \<longrightarrow> astype_boolean_Int64 lib vs \<noteq> None"
  shows "fst (convert_loop lib r bcs w) = Inr (Some r)"
  using assms
proof (induction bcs arbitrary: w)
  case Nil
  then show ?case by simp
next
  case (Cons bc bcs)
  obtain vals where v: "map_of (cols (objects w r)) bc = Some vals"
    using Cons.prems(2)
    by (metis columns_def list.set_intros(1) map_of_eq_None_iff not_Some_eq set_map subsetD)
  show ?case
  proof (cases "list_all is_null vals")
    case True
    have "fst (convert_loop lib r bcs w) = Inr (Some r)"
      using Cons.prems by (intro Cons.IH) auto
    then show ?thesis using v True by simp
  next
    case False
    then obtain ints where i: "astype_boolean_Int64 lib vals = Some ints"
      using Cons.prems(3) v by (metis list.set_intros(1) not_Some_eq)
    let ?w1 = "w\<lparr>objects := (objects w)(r := set_column bc ints (objects w r)),
                      stdout := stdout w @
                        [''Transformed booleans in the column '' @ bc @ '' to integers.'']\<rparr>"
    have "fst (convert_loop lib r bcs ?w1) = Inr (Some r)"
    proof (rule Cons.IH)
      show "distinct bcs" using Cons.prems(1) by simp
      show "set bcs \<subseteq> set (columns (objects ?w1 r))" using Cons.prems(2) by simp
      show "\<forall>c vs. c \<in> set bcs \<and> map_of (cols (objects ?w1 r)) c = Some vs
              \<and> \<not> list_all is_null vs \<longrightarrow> astype_boolean_Int64 lib vs \<noteq> None"
      proof (intro allI impI)
        fix c vs
        assume h: "c \<in> set bcs \<and> map_of (cols (objects ?w1 r)) c = Some vs \<and> \<not> list_all is_null vs"
        then have "c \<noteq> bc" using Cons.prems(1) by auto
        then have "map_of (cols (objects w r)) c = Some vs"
          using h by (simp add: map_of_set_column)
        then show "astype_boolean_Int64 lib vs \<noteq> None" using Cons.prems(3) h by auto
      qed
    qed
    then show ?thesis using v False i by simp
  qed
qed

text \<open>
  Claim C10. Let \<open>r\<close> refer to a table of the state. Whatever \<^verbatim>\<open>convert_booleans\<close>
  does, every table the state held before is as it was afterwards, the caller's among
  them. When it returns a table, that table has the index and the column names of the
  caller's; every column not in the given list is as it was; every column of nulls
  only is as it was; and (the list naming no column twice) every listed column with a
  value that is not null holds the result of the conversion to nullable integers.
  When each such column converts, a table is returned.
\<close>

theorem convert_booleans_frame:
  assumes alloc: "r < next_ref w"
    and run: "convert_booleans lib (Some r) bool_columns w = (res, w')"
  shows "(\<forall>q < next_ref w. objects w' q = objects w q)
       \<and> (\<forall>r'. res = Inr (Some r') \<longrightarrow>
             index (objects w' r') = index (objects w r)
           \<and> columns (objects w' r') = columns (objects w r)
           \<and> (\<forall>c. c \<notin> set bool_columns \<longrightarrow>
                  map_of (cols (objects w' r')) c = map_of (cols (objects w r)) c)
           \<and> (\<forall>c vs. map_of (cols (objects w r)) c = Some vs \<and> list_all is_null vs \<longrightarrow>
                  map_of (cols (objects w' r')) c = Some vs)
           \<and> (distinct bool_columns \<longrightarrow>
                (\<forall>c vs. c \<in> set bool_columns \<and> map_of (cols (objects w r)) c = Some vs
                      \<and> \<not> list_all is_null vs \<longrightarrow>
                   (\<exists>ints. astype_boolean_Int64 lib vs = Some ints
                        \<and> map_of (cols (objects w' r')) c = Some ints))))
       \<and> (distinct bool_columns
           \<and> (\<forall>c vs. c \<in> set bool_columns \<and> map_of (cols (objects w r)) c = Some vs
                  \<and> \<not> list_all is_null vs \<longrightarrow> astype_boolean_Int64 lib vs \<noteq> None)
           \<longrightarrow> (\<exists>r'. res = Inr (Some r')))"
proof -
  let ?bcs = "filter (\<lambda>c. c \<in> set (columns (objects w r))) bool_columns"
  show ?thesis
  proof (cases "?bcs = []")
    case True
    then have same: "res = Inr (Some r)" "w' = w"
      using run by (simp_all add: convert_booleans_def)
    have absent: "\<And>c vs. c \<in> set bool_columns \<Longrightarrow> map_of (cols (objects w r)) c = Some vs \<Longrightarrow> False"
    proof -
      fix c vs
      assume "c \<in> set bool_columns" "map_of (cols (objects w r)) c = Some vs"
      then have "c \<in> set bool_columns \<and> c \<in> set (columns (objects w r))"
        using map_of_cols_Some_columns by blast
      then have "c \<in> set ?bcs" by simp
      then show False using True by simp
    qed
    show ?thesis using same absent by auto
  next
    case False
    let ?r' = "next_ref w"
    let ?w1 = "w\<lparr>objects := (objects w)(?r' := objects w r), next_ref := Suc ?r'\<rparr>"
    have loop: "convert_loop lib ?r' ?bcs ?w1 = (res, w')"
      using run False by (simp add: convert_booleans_def Let_def)
    note eff = convert_loop_effect [OF loop]
    have o1: "objects ?w1 ?r' = objects w r" by simp
    have sub: "set ?bcs \<subseteq> set (columns (objects ?w1 ?r'))" by auto
    have res: "res = Inl TypeError \<or> res = Inr (Some ?r')"
      using convert_loop_result [OF sub, of lib] loop by simp
    have unchanged: "\<forall>q < next_ref w. objects w' q = objects w q"
      using eff by auto
    have part2: "index (objects w' ?r') = index (objects w r)
           \<and> columns (objects w' ?r') = columns (objects w r)
           \<and> (\<forall>c. c \<notin> set bool_columns \<longrightarrow>
                  map_of (cols (objects w' ?r')) c = map_of (cols (objects w r)) c)
           \<and> (\<forall>c vs. map_of (cols (objects w r)) c = Some vs \<and> list_all is_null vs \<longrightarrow>
                  map_of (cols (objects w' ?r')) c = Some vs)"
      using eff o1 by auto
    have part3: "distinct bool_columns \<longrightarrow>
                (\<forall>c vs. c \<in> set bool_columns \<and> map_of (cols (objects w r)) c = Some vs
                      \<and> \<not> list_all is_null vs \<longrightarrow>
                   (\<exists>ints. astype_boolean_Int64 lib vs = Some ints
                        \<and> map_of (cols (objects w' ?r')) c = Some ints))"
      if ok: "res = Inr (Some ?r')"
    proof (intro allI impI)
      fix c vs
      assume d: "distinct bool_columns"
        and h: "c \<in> set bool_columns \<and> map_of (cols (objects w r)) c = Some vs
                      \<and> \<not> list_all is_null vs"
      have "c \<in> set (columns (objects w r))"
        using h map_of_cols_Some_columns by blast
      then have cin: "c \<in> set ?bcs" using h by simp
      have m: "map_of (cols (objects ?w1 ?r')) c = Some vs" using h by simp
      show "\<exists>ints. astype_boolean_Int64 lib vs = Some ints
                        \<and> map_of (cols (objects w' ?r')) c = Some ints"
        using convert_loop_converted [OF loop [unfolded ok] _ cin m] d h by simp
    qed
    have part4: "\<exists>r'. res = Inr (Some r')"
      if d: "distinct bool_columns"
        and conv: "\<forall>c vs. c \<in> set bool_columns \<and> map_of (cols (objects w r)) c = Some vs
                  \<and> \<not> list_all is_null vs \<longrightarrow> astype_boolean_Int64 lib vs \<noteq> None"
    proof -
      have "fst (convert_loop lib ?r' ?bcs ?w1) = Inr (Some ?r')"
      proof (rule convert_loop_succeeds)
        show "distinct ?bcs" using d by simp
        show "set ?bcs \<subseteq> set (columns (objects ?w1 ?r'))" by (rule sub)
        show "\<forall>c vs. c \<in> set ?bcs \<and> map_of (cols (objects ?w1 ?r')) c = Some vs
                \<and> \<not> list_all is_null vs \<longrightarrow> astype_boolean_Int64 lib vs \<noteq> None"
          using conv by auto
      qed
      then show ?thesis using loop by simp
    qed
    show ?thesis
    proof (intro conjI)
      show "\<forall>q < next_ref w. objects w' q = objects w q" by (rule unchanged)
      show "\<forall>r'. res = Inr (Some r') \<longrightarrow>
             index (objects w' r') = index (objects w r)
           \<and> columns (objects w' r') = columns (objects w r)
           \<and> (\<forall>c. c \<notin> set bool_columns \<longrightarrow>
                  map_of (cols (objects w' r')) c = map_of (cols (objects w r)) c)
           \<and> (\<forall>c vs. map_of (cols (objects w r)) c = Some vs \<and> list_all is_null vs \<longrightarrow>
                  map_of (cols (objects w' r')) c = Some vs)
           \<and> (distinct bool_columns \<longrightarrow>
                (\<forall>c vs. c \<in> set bool_columns \<and> map_of (cols (objects w r)) c = Some vs
                      \<and> \<not> list_all is_null vs \<longrightarrow>
                   (\<exists>ints. astype_boolean_Int64 lib vs = Some ints
                        \<and> map_of (cols (objects w' r')) c = Some ints)))"
      proof (intro allI impI)
        fix r'
        assume a: "res = Inr (Some r')"
        then have "r' = ?r'" using res by auto
        then show "index (objects w' r') = index (objects w r)
           \<and> columns (objects w' r') = columns (objects w r)
           \<and> (\<forall>c. c \<notin> set bool_columns \<longrightarrow>
                  map_of (cols (objects w' r')) c = map_of (cols (objects w r)) c)
           \<and> (\<forall>c vs. map_of (cols (objects w r)) c = Some vs \<and> list_all is_null vs \<longrightarrow>
                  map_of (cols (objects w' r')) c = Some vs)
           \<and> (distinct bool_columns \<longrightarrow>
                (\<forall>c vs. c \<in> set bool_columns \<and> map_of (cols (objects w r)) c = Some vs
                      \<and> \<not> list_all is_null vs \<longrightarrow>
                   (\<exists>ints. astype_boolean_Int64 lib vs = Some ints
                        \<and> map_of (cols (objects w' r')) c = Some ints)))"
          using part2 part3 a by simp
      qed
      show "distinct bool_columns
           \<and> (\<forall>c vs. c \<in> set bool_columns \<and> map_of (cols (objects w r)) c = Some vs
                  \<and> \<not> list_all is_null vs \<longrightarrow> astype_boolean_Int64 lib vs \<noteq> None)
           \<longrightarrow> (\<exists>r'. res = Inr (Some r'))"
        using part4 by blast
    qed
  qed
qed

theorem convert_booleans_frame_witness:
  "fst (convert_booleans sample_pylib (Some 0) [''has_drumset'', ''comment'', ''absent''] ex_heap) =
     Inr (Some 1)
 \<and> objects (snd (convert_booleans sample_pylib (Some 0)
        [''has_drumset'', ''comment'', ''absent''] ex_heap)) 0 = ex_table
 \<and> map_of (cols (objects (snd (convert_booleans sample_pylib (Some 0)
        [''has_drumset'', ''comment'', ''absent''] ex_heap)) 1)) ''fname'' =
     Some [VStr ''z'', VStr ''x'', VStr ''y'']
 \<and> map_of (cols (objects (snd (convert_booleans sample_pylib (Some 0)
        [''has_drumset'', ''comment'', ''absent''] ex_heap)) 1)) ''comment'' =
     Some [VNull, VNull, VNull]
 \<and> map_of (cols (objects (snd (convert_booleans sample_pylib (Some 0)
        [''has_drumset'', ''comment'', ''absent''] ex_heap)) 1)) ''has_drumset'' =
     Some [VNull, VInt 1, VInt 0]"
proof -
  let ?bcs = "[''has_drumset'', ''comment'', ''absent'']"
  let ?run = "convert_booleans sample_pylib (Some 0) ?bcs ex_heap"
  have alloc: "0 < next_ref ex_heap" by (simp add: ex_heap_def)
  have run: "?run = (fst ?run, snd ?run)" by simp
  note inst = convert_booleans_frame [OF alloc run]
  have o: "objects ex_heap 0 = ex_table" by (simp add: ex_heap_def)
  have c: "map_of (cols ex_table) ''fname'' = Some [VStr ''z'', VStr ''x'', VStr ''y'']"
    "map_of (cols ex_table) ''comment'' = Some [VNull, VNull, VNull]"
    "map_of (cols ex_table) ''has_drumset'' = Some [VNull, VBool True, VBool False]"
    by (simp_all add: ex_table_def)
  have nulls: "list_all is_null [VNull, VNull, VNull]"
    "\<not> list_all is_null [VNull, VBool True, VBool False]"
    by (simp_all add: is_null_def)
  have conv: "astype_boolean_Int64 sample_pylib [VNull, VBool True, VBool False] =
      Some [VNull, VInt 1, VInt 0]"
    by (simp add: sample_pylib_def sample_astype_def)
  have res: "fst ?run = Inr (Some 1)"
    by (simp add: convert_booleans_def columns_def ex_heap_def ex_table_def is_null_def
        sample_pylib_def sample_astype_def set_column_def Let_def)
  have a: "objects (snd ?run) 0 = ex_table"
    using inst [THEN conjunct1] alloc o by (simp add: ex_heap_def)
  note at1 = inst [THEN conjunct2, THEN conjunct1, rule_format, OF res, unfolded o]
  have b: "map_of (cols (objects (snd ?run) 1)) ''fname'' =
      Some [VStr ''z'', VStr ''x'', VStr ''y'']"
    using at1 [THEN conjunct2, THEN conjunct2, THEN conjunct1, rule_format, of "''fname''"] c(1)
    by simp
  have d: "map_of (cols (objects (snd ?run) 1)) ''comment'' = Some [VNull, VNull, VNull]"
    using at1 [THEN conjunct2, THEN conjunct2, THEN conjunct2, THEN conjunct1, rule_format,
        of "''comment''" "[VNull, VNull, VNull]"] c(2) nulls(1)
    by simp
  have e: "map_of (cols (objects (snd ?run) 1)) ''has_drumset'' = Some [VNull, VInt 1, VInt 0]"
    using at1 [THEN conjunct2, THEN conjunct2, THEN conjunct2, THEN conjunct2, rule_format,
        of "''has_drumset''" "[VNull, VBool True, VBool False]"] c(3) nulls(2) conv
    by simp
  show ?thesis using res a b d e by simp
qed

subsection \<open>Errors for missing columns\<close>

lemma read_all_length:
  "read_all lib xs = Inr kdfs \<Longrightarrow> map fst kdfs = map fst xs"
proof (induction xs arbitrary: kdfs)
  case Nil
  then show ?case by simp
next
  case (Cons x xs)
  obtain key raw where x: "x = (key, raw)" by (cases x)
  show ?case using Cons unfolding x by (auto split: sum.splits)
qed

lemma find_two_None:
  "find P [a, b] = None \<longleftrightarrow> \<not> P a \<and> \<not> P b"
  by simp

lemma rewrite_paths_error:
  "rewrite_paths name t = Inl e \<Longrightarrow> e = TypeError"
  by (auto simp: rewrite_paths_def split: option.splits)

lemma concat_metadata_found:
  assumes rd: "read_all lib (found_tsvs rdir) = Inr kdfs" and ne: "kdfs \<noteq> []"
  shows "concat_metadata lib rdir =
     (case find (\<lambda>col. col \<in> set (columns (pd_concat kdfs))) [''subdirectory'', ''rel_paths''] of
        None \<Rightarrow> Inl (ValueError rel_path_message)
      | Some rel_path_col \<Rightarrow>
          (case rewrite_paths rel_path_col (pd_concat kdfs) of
             Inl e \<Rightarrow> Inl e
           | Inr c1 \<Rightarrow>
               (case (if ''rel_path'' \<in> set (columns c1)
                      then rewrite_paths ''rel_path'' c1 else Inr c1) of
                  Inl e \<Rightarrow> Inl e
                | Inr c2 \<Rightarrow> Inr \<lparr>index = map fst (index c2), cols = cols c2\<rparr>)))"
proof -
  have "found_tsvs rdir \<noteq> []" using read_all_length [OF rd] ne by auto
  then show ?thesis using rd by (simp add: concat_metadata_def Let_def)
qed

lemma concat_metadata_rel_path_error:
  assumes rd: "read_all lib (found_tsvs rdir) = Inr kdfs" and ne: "kdfs \<noteq> []"
  shows "concat_metadata lib rdir = Inl (ValueError rel_path_message) \<longleftrightarrow>
           ''subdirectory'' \<notin> set (columns (pd_concat kdfs))
         \<and> ''rel_paths'' \<notin> set (columns (pd_concat kdfs))"
proof (cases "find (\<lambda>col. col \<in> set (columns (pd_concat kdfs))) [''subdirectory'', ''rel_paths'']")
  case None
  then have "''subdirectory'' \<notin> set (columns (pd_concat kdfs))
         \<and> ''rel_paths'' \<notin> set (columns (pd_concat kdfs))"
    by (auto split: if_splits)
  then show ?thesis unfolding concat_metadata_found [OF rd ne] using None by simp
next
  case (Some col)
  then have present: "\<not> (''subdirectory'' \<notin> set (columns (pd_concat kdfs))
         \<and> ''rel_paths'' \<notin> set (columns (pd_concat kdfs)))"
    by (auto split: if_splits)
  have "concat_metadata lib rdir \<noteq> Inl (ValueError rel_path_message)"
    unfolding concat_metadata_found [OF rd ne] using Some
    by (auto split: sum.splits if_splits dest: rewrite_paths_error)
  then show ?thesis using present by simp
qed

lemma metadata2markdown_fname_error:
  "metadata2markdown lib concatenated = Inl (ValueError fname_message) \<longleftrightarrow>
     ''fname'' \<notin> set (columns concatenated) \<and> ''fnames'' \<notin> set (columns concatenated)"
proof (cases "find (\<lambda>col. col \<in> set (columns concatenated)) [''fname'', ''fnames'']")
  case None
  then have "''fname'' \<notin> set (columns concatenated) \<and> ''fnames'' \<notin> set (columns concatenated)"
    by (auto split: if_splits)
  then show ?thesis using None by (simp add: metadata2markdown_def)
next
  case (Some col)
  then have present: "\<not> (''fname'' \<notin> set (columns concatenated)
         \<and> ''fnames'' \<notin> set (columns concatenated))"
    by (auto split: if_splits)
  have "metadata2markdown lib concatenated \<noteq> Inl (ValueError fname_message)"
    using Some by (auto simp: metadata2markdown_def Let_def split: option.splits)
  then show ?thesis using present by simp
qed

lemma messages_name_columns:
  "contains ''subdirectory'' rel_path_message" "contains ''rel_paths'' rel_path_message"
  "contains ''fname'' fname_message" "contains ''fnames'' fname_message"
  by code_simp+

lemma path_join_relative:
  assumes "take 1 b \<noteq> ''/''"
  shows "path_join a b = (if a = [] \<or> last a = CHR ''/'' then a else a @ ''/'') @ b"
  using assms by (simp add: path_join_def)

lemma output_paths_differ:
  "path_join out ''concatenated_metadata.tsv'' \<noteq> path_join out ''README.md''"
  by (simp add: path_join_def)

lemma convert_booleans_effect:
  assumes "convert_booleans lib (Some r) bool_columns w = (res, w')"
  shows "files w' = files w"
    and "\<forall>q < next_ref w. objects w' q = objects w q"
    and "res = Inl TypeError \<or> (\<exists>r'. res = Inr (Some r'))"
proof -
  let ?bcs = "filter (\<lambda>c. c \<in> set (columns (objects w r))) bool_columns"
  let ?r' = "next_ref w"
  let ?w1 = "w\<lparr>objects := (objects w)(?r' := objects w r), next_ref := Suc ?r'\<rparr>"
  show "files w' = files w"
  proof (cases "?bcs = []")
    case True
    then show ?thesis using assms by (simp add: convert_booleans_def)
  next
    case False
    then have "convert_loop lib ?r' ?bcs ?w1 = (res, w')"
      using assms by (simp add: convert_booleans_def Let_def)
    from convert_loop_effect [OF this] show ?thesis by simp
  qed
  show "\<forall>q < next_ref w. objects w' q = objects w q"
  proof (cases "?bcs = []")
    case True
    then show ?thesis using assms by (simp add: convert_booleans_def)
  next
    case False
    then have "convert_loop lib ?r' ?bcs ?w1 = (res, w')"
      using assms by (simp add: convert_booleans_def Let_def)
    from convert_loop_effect [OF this] show ?thesis by auto
  qed
  show "res = Inl TypeError \<or> (\<exists>r'. res = Inr (Some r'))"
  proof (cases "?bcs = []")
    case True
    then show ?thesis using assms by (auto simp: convert_booleans_def)
  next
    case False
    then have loop: "convert_loop lib ?r' ?bcs ?w1 = (res, w')"
      using assms by (simp add: convert_booleans_def Let_def)
    have "set ?bcs \<subseteq> set (columns (objects ?w1 ?r'))" by auto
    from convert_loop_result [OF this, of lib] loop show ?thesis by auto
  qed
qed

lemma write_tsv_effect:
  assumes "write_tsv lib r tsv_path w = (res, w')"
  shows "\<forall>p. p \<noteq> tsv_path \<longrightarrow> files w' p = files w p"
    and "\<forall>q < next_ref w. objects w' q = objects w q"
    and "res = Inl TypeError \<or> res = Inr ()"
proof -
  obtain cres cw where c: "convert_booleans lib (Some r) BOOLEAN_COLUMNS w = (cres, cw)"
    by (cases "convert_booleans lib (Some r) BOOLEAN_COLUMNS w")
  note eff = convert_booleans_effect [OF c]
  from eff(3) show "\<forall>p. p \<noteq> tsv_path \<longrightarrow> files w' p = files w p"
    using assms c eff(1) by (auto simp: write_tsv_def)
  from eff(3) show "\<forall>q < next_ref w. objects w' q = objects w q"
    using assms c eff(2) by (auto simp: write_tsv_def)
  from eff(3) show "res = Inl TypeError \<or> res = Inr ()"
    using assms c by (auto simp: write_tsv_def)
qed

lemma main_markdown_error:
  assumes agg: "concat_metadata lib rdir = Inr agg" and ne: "index agg \<noteq> []"
    and md: "metadata2markdown lib agg = Inl e"
  shows "\<exists>e' w'. main lib dir rdir out w = (Inl e', w') \<and> (e' = e \<or> e' = TypeError)
           \<and> files w' (path_join out ''README.md'') = files w (path_join out ''README.md'')"
proof -
  let ?r = "next_ref w"
  let ?w1 = "w\<lparr>objects := (objects w)(?r := agg), next_ref := Suc ?r\<rparr>"
  let ?tsv = "path_join out ''concatenated_metadata.tsv''"
  obtain res w2 where t: "write_tsv lib ?r ?tsv ?w1 = (res, w2)"
    by (cases "write_tsv lib ?r ?tsv ?w1")
  note eff = write_tsv_effect [OF t]
  have readme: "files w2 (path_join out ''README.md'') = files w (path_join out ''README.md'')"
    using eff(1) output_paths_differ [of out] by simp
  have obj: "objects w2 ?r = agg" using eff(2) by simp
  have m: "main lib dir rdir out w =
      (case res of Inl e \<Rightarrow> (Inl e, w2)
       | Inr u \<Rightarrow> (case metadata2markdown lib (objects w2 ?r) of
            Inl e \<Rightarrow> (Inl e, w2)
          | Inr md_str \<Rightarrow> (Inr (), write_md md_str (path_join out ''README.md'') w2)))"
    using agg ne t by (simp add: main_def Let_def split: sum.splits)
  from eff(3) show ?thesis
  proof
    assume "res = Inl TypeError"
    then show ?thesis using m readme by simp
  next
    assume "res = Inr ()"
    then show ?thesis using m readme obj md by simp
  qed
qed

text \<open>
  Claim C8. Let at least one \<^verbatim>\<open>metadata.tsv\<close> be found and all of them be read.
  \<^verbatim>\<open>concat_metadata\<close> raises the ValueError with its message exactly when the
  concatenated table has neither a \<^verbatim>\<open>subdirectory\<close> nor a \<^verbatim>\<open>rel_paths\<close> column, and
  \<^verbatim>\<open>metadata2markdown\<close> raises the ValueError with its message exactly when its table
  has neither an \<^verbatim>\<open>fname\<close> nor an \<^verbatim>\<open>fnames\<close> column; each message contains the two
  column names. An error of \<^verbatim>\<open>concat_metadata\<close> ends \<^verbatim>\<open>main\<close> with that error and the state
  as it was. When the concatenated table has rows and \<^verbatim>\<open>metadata2markdown\<close> raises on
  it, \<^verbatim>\<open>main\<close> ends with an error, that one unless writing the TSV raised TypeError
  before, and the README is as it was.
\<close>

theorem missing_column_errors:
  assumes rd: "read_all lib (found_tsvs rdir) = Inr kdfs" and ne: "kdfs \<noteq> []"
  shows "(concat_metadata lib rdir = Inl (ValueError rel_path_message) \<longleftrightarrow>
            ''subdirectory'' \<notin> set (columns (pd_concat kdfs))
          \<and> ''rel_paths'' \<notin> set (columns (pd_concat kdfs)))
       \<and> (metadata2markdown lib concatenated = Inl (ValueError fname_message) \<longleftrightarrow>
            ''fname'' \<notin> set (columns concatenated) \<and> ''fnames'' \<notin> set (columns concatenated))
       \<and> contains ''subdirectory'' rel_path_message \<and> contains ''rel_paths'' rel_path_message
       \<and> contains ''fname'' fname_message \<and> contains ''fnames'' fname_message
       \<and> (\<forall>e. concat_metadata lib rdir = Inl e \<longrightarrow> main lib dir rdir out w = (Inl e, w))
       \<and> (\<forall>agg e. concat_metadata lib rdir = Inr agg \<and> index agg \<noteq> []
              \<and> metadata2markdown lib agg = Inl e \<longrightarrow>
            (\<exists>e' w'. main lib dir rdir out w = (Inl e', w') \<and> (e' = e \<or> e' = TypeError)
               \<and> files w' (path_join out ''README.md'') = files w (path_join out ''README.md'')))"
proof (intro conjI allI impI)
  show "concat_metadata lib rdir = Inl (ValueError rel_path_message) \<longleftrightarrow>
            ''subdirectory'' \<notin> set (columns (pd_concat kdfs))
          \<and> ''rel_paths'' \<notin> set (columns (pd_concat kdfs))"
    by (rule concat_metadata_rel_path_error [OF rd ne])
  show "metadata2markdown lib concatenated = Inl (ValueError fname_message) \<longleftrightarrow>
            ''fname'' \<notin> set (columns concatenated) \<and> ''fnames'' \<notin> set (columns concatenated)"
    by (rule metadata2markdown_fname_error)
  show "contains ''subdirectory'' rel_path_message" "contains ''rel_paths'' rel_path_message"
    "contains ''fname'' fname_message" "contains ''fnames'' fname_message"
    by (rule messages_name_columns)+
next
  fix e
  assume "concat_metadata lib rdir = Inl e"
  then show "main lib dir rdir out w = (Inl e, w)" by (simp add: main_def)
next
  fix agg e
  assume "concat_metadata lib rdir = Inr agg \<and> index agg \<noteq> []
              \<and> metadata2markdown lib agg = Inl e"
  then show "\<exists>e' w'. main lib dir rdir out w = (Inl e', w') \<and> (e' = e \<or> e' = TypeError)
               \<and> files w' (path_join out ''README.md'') = files w (path_join out ''README.md'')"
    using main_markdown_error by blast
qed

lemma ex_root_nopath_read:
  "read_all sample_pylib (found_tsvs ex_root_nopath) =
     Inr [(''a'', \<lparr>index = [0], cols = [(''fname'', [VStr ''z''])]\<rparr>)]"
  by (simp add: ex_root_nopath_def found_tsvs_def List.map_filter_def read_csv_def
      BOOLEAN_COLUMNS_def sample_pylib_def)

lemma ex_root_nofname_read:
  "read_all sample_pylib (found_tsvs ex_root_nofname) =
     Inr [(''a'', \<lparr>index = [0], cols = [(''subdirectory'', [VStr ''scores''])]\<rparr>)]"
  by (simp add: ex_root_nofname_def found_tsvs_def List.map_filter_def read_csv_def
      BOOLEAN_COLUMNS_def sample_pylib_def)

lemma ex_root_nofname_concat:
  "concat_metadata sample_pylib ex_root_nofname =
     Inr \<lparr>index = [''a''], cols = [(''subdirectory'', [VStr ''a/scores''])]\<rparr>"
  by code_simp

theorem missing_column_errors_witness:
  "concat_metadata sample_pylib ex_root_nopath = Inl (ValueError rel_path_message)
 \<and> main sample_pylib ''repo'' ex_root_nopath ''out'' ex_world =
     (Inl (ValueError rel_path_message), ex_world)
 \<and> metadata2markdown sample_pylib ex_table \<noteq> Inl (ValueError fname_message)
 \<and> (\<exists>e' w'. main sample_pylib ''repo'' ex_root_nofname ''out'' ex_world = (Inl e', w')
       \<and> (e' = ValueError fname_message \<or> e' = TypeError)
       \<and> files w' ''out/README.md'' = Some ex_readme)"
proof -
  have ne1: "[(''a'', \<lparr>index = [0::nat], cols = [(''fname'', [VStr ''z''])]\<rparr>)] \<noteq> []"
    and ne2: "[(''a'', \<lparr>index = [0::nat], cols = [(''subdirectory'', [VStr ''scores''])]\<rparr>)] \<noteq> []"
    by simp_all
  note t1 = missing_column_errors [OF ex_root_nopath_read ne1,
      of ex_table "''repo''" "''out''" ex_world]
  have cols1: "columns (pd_concat [(''a'', \<lparr>index = [0::nat], cols = [(''fname'', [VStr ''z''])]\<rparr>)]) =
      [''fname'']"
    by (simp add: pd_concat_def columns_def unique_in_order_def)
  have a: "concat_metadata sample_pylib ex_root_nopath = Inl (ValueError rel_path_message)"
    using t1 [THEN conjunct1] cols1 by simp
  have b: "main sample_pylib ''repo'' ex_root_nopath ''out'' ex_world =
     (Inl (ValueError rel_path_message), ex_world)"
    using t1 [THEN conjunct2, THEN conjunct2, THEN conjunct2, THEN conjunct2, THEN conjunct2,
        THEN conjunct2, THEN conjunct1, rule_format, OF a] by simp
  have c: "metadata2markdown sample_pylib ex_table \<noteq> Inl (ValueError fname_message)"
    using t1 [THEN conjunct2, THEN conjunct1] by (simp add: ex_table_def columns_def)
  note t2 = missing_column_errors [OF ex_root_nofname_read ne2,
      of "\<lparr>index = [''a''], cols = [(''subdirectory'', [VStr ''a/scores''])]\<rparr>"
        "''repo''" "''out''" ex_world]
  have md: "metadata2markdown sample_pylib
      \<lparr>index = [''a''], cols = [(''subdirectory'', [VStr ''a/scores''])]\<rparr> =
      Inl (ValueError fname_message)"
    using t2 [THEN conjunct2, THEN conjunct1] by (simp add: columns_def)
  have readme: "files ex_world (path_join ''out'' ''README.md'') = Some ex_readme"
    by (simp add: path_join_def ex_world_def)
  have p: "path_join ''out'' ''README.md'' = ''out/README.md''"
    by (simp add: path_join_def)
  have d: "\<exists>e' w'. main sample_pylib ''repo'' ex_root_nofname ''out'' ex_world = (Inl e', w')
       \<and> (e' = ValueError fname_message \<or> e' = TypeError)
       \<and> files w' ''out/README.md'' = Some ex_readme"
    using t2 [THEN conjunct2, THEN conjunct2, THEN conjunct2, THEN conjunct2, THEN conjunct2,
        THEN conjunct2, THEN conjunct2, rule_format,
        of "\<lparr>index = [''a''], cols = [(''subdirectory'', [VStr ''a/scores''])]\<rparr>"
          "ValueError fname_message"]
      ex_root_nofname_concat md readme
    unfolding p by simp
  show ?thesis using a b c d by simp
qed

subsection \<open>The concatenated table and its path columns\<close>

lemma index_pd_concat:
  "map fst (index (pd_concat kdfs)) =
     concat (map (\<lambda>(key, df). replicate (length (index df)) key) kdfs)"
  by (induction kdfs) (auto simp: pd_concat_def o_def map_replicate_const)

lemma map_of_generated:
  "map_of (map (\<lambda>n. (n, f n)) names) name = (if name \<in> set names then Some (f name) else None)"
  by (induction names) auto

lemma map_of_pd_concat:
  "map_of (cols (pd_concat kdfs)) name =
     (if name \<in> set (columns (pd_concat kdfs))
      then Some (concat (map (\<lambda>(key, df). column_or_nulls name df) kdfs)) else None)"
proof -
  have "columns (pd_concat kdfs) =
      unique_in_order (concat (map (\<lambda>(key, df). columns df) kdfs))"
    by (simp add: pd_concat_def columns_def o_def)
  then show ?thesis by (simp add: pd_concat_def map_of_generated)
qed

lemma column_or_nulls_pd_concat:
  assumes "name \<in> set (columns (pd_concat kdfs))"
  shows "column_or_nulls name (pd_concat kdfs) =
           concat (map (\<lambda>(key, df). column_or_nulls name df) kdfs)"
  using assms by (simp add: column_or_nulls_def [of name "pd_concat kdfs"] map_of_pd_concat)

lemma length_column_or_nulls:
  assumes "wf_table df"
  shows "length (column_or_nulls name df) = length (index df)"
proof (cases "map_of (cols df) name")
  case None
  then show ?thesis by (simp add: column_or_nulls_def)
next
  case (Some vs)
  then have "(name, vs) \<in> set (cols df)" by (rule map_of_SomeD)
  then have "length vs = length (index df)"
    using assms by (auto simp: wf_table_def list_all_iff)
  then show ?thesis using Some by (simp add: column_or_nulls_def)
qed

lemma join_cells_per_table:
  assumes "\<forall>(key, df) \<in> set kdfs. wf_table df"
  shows "map (\<lambda>(corpus, v). join_cell corpus v)
           (zip (concat (map (\<lambda>(key, df). replicate (length (index df)) key) kdfs))
                (concat (map (\<lambda>(key, df). column_or_nulls name df) kdfs))) =
         concat (map (\<lambda>(key, df). map (join_cell key) (column_or_nulls name df)) kdfs)"
  using assms
proof (induction kdfs)
  case Nil
  then show ?case by simp
next
  case (Cons kdf kdfs)
  obtain key df where kdf: "kdf = (key, df)" by (cases kdf)
  have len: "length (column_or_nulls name df) = length (index df)"
    using Cons.prems kdf by (auto intro: length_column_or_nulls)
  have seg: "map (\<lambda>(corpus, v). join_cell corpus v)
               (zip (replicate (length (index df)) key) (column_or_nulls name df)) =
             map (join_cell key) (column_or_nulls name df)"
    using len by (auto simp: list_eq_iff_nth_eq)
  have ih: "map (\<lambda>(corpus, v). join_cell corpus v)
           (zip (concat (map (\<lambda>(key, df). replicate (length (index df)) key) kdfs))
                (concat (map (\<lambda>(key, df). column_or_nulls name df) kdfs))) =
         concat (map (\<lambda>(key, df). map (join_cell key) (column_or_nulls name df)) kdfs)"
    using Cons by simp
  show ?case unfolding kdf using len seg ih by (simp add: zip_append)
qed

lemma those_map_Some: "those xs = Some ys \<Longrightarrow> map Some ys = xs"
  by (simp add: those_eq_Some_iff)

lemma rewrite_paths_ok:
  assumes "rewrite_paths name t = Inr t'"
  shows "\<exists>new. t' = set_column name new t
           \<and> map Some new = map (\<lambda>(corpus, v). join_cell corpus v)
                 (zip (map fst (index t)) (column_or_nulls name t))"
  using assms by (auto simp: rewrite_paths_def split: option.splits dest: those_map_Some)

lemma concat_metadata_paths:
  assumes rd: "read_all lib (found_tsvs rdir) = Inr kdfs" and ne: "kdfs \<noteq> []"
    and wf: "\<forall>(key, df) \<in> set kdfs. wf_table df"
    and ok: "concat_metadata lib rdir = Inr agg"
  shows "index agg = concat (map (\<lambda>(key, df). replicate (length (index df)) key) kdfs)
       \<and> (\<exists>rel_path_col new.
             find (\<lambda>col. col \<in> set (columns (pd_concat kdfs))) [''subdirectory'', ''rel_paths'']
               = Some rel_path_col
           \<and> map_of (cols agg) rel_path_col = Some new
           \<and> map Some new =
               concat (map (\<lambda>(key, df). map (join_cell key) (column_or_nulls rel_path_col df)) kdfs)
           \<and> (\<forall>name. name \<noteq> rel_path_col \<and> name \<noteq> ''rel_path'' \<longrightarrow>
                 map_of (cols agg) name = map_of (cols (pd_concat kdfs)) name))
       \<and> (''rel_path'' \<in> set (columns (pd_concat kdfs)) \<longrightarrow>
            (\<exists>new. map_of (cols agg) ''rel_path'' = Some new
               \<and> map Some new =
                   concat (map (\<lambda>(key, df). map (join_cell key) (column_or_nulls ''rel_path'' df))
                             kdfs)))"
proof -
  let ?C = "pd_concat kdfs"
  let ?keys = "concat (map (\<lambda>(key, df). replicate (length (index df)) key) kdfs)"
  note unfolded = concat_metadata_found [OF rd ne]
  obtain rel_path_col
    where col: "find (\<lambda>col. col \<in> set (columns ?C)) [''subdirectory'', ''rel_paths''] = Some rel_path_col"
    using ok unfolded
    by (cases "find (\<lambda>col. col \<in> set (columns ?C)) [''subdirectory'', ''rel_paths'']") auto
  have col_in: "rel_path_col \<in> set (columns ?C)"
    and col_ne: "rel_path_col \<noteq> ''rel_path''"
    using col by (auto split: if_splits)
  obtain c1 where r1: "rewrite_paths rel_path_col ?C = Inr c1"
    using ok unfolded col by (cases "rewrite_paths rel_path_col ?C") auto
  obtain c2 where r2: "(if ''rel_path'' \<in> set (columns c1)
                        then rewrite_paths ''rel_path'' c1 else Inr c1) = Inr c2"
    and agg: "agg = \<lparr>index = map fst (index c2), cols = cols c2\<rparr>"
    using ok unfolded col r1
    by (cases "if ''rel_path'' \<in> set (columns c1) then rewrite_paths ''rel_path'' c1 else Inr c1")
      auto
  obtain new1 where c1: "c1 = set_column rel_path_col new1 ?C"
    and n1: "map Some new1 = map (\<lambda>(corpus, v). join_cell corpus v)
                 (zip (map fst (index ?C)) (column_or_nulls rel_path_col ?C))"
    using rewrite_paths_ok [OF r1] by blast
  have joined: "map (\<lambda>(corpus, v). join_cell corpus v)
                 (zip (map fst (index ?C)) (column_or_nulls name ?C)) =
               concat (map (\<lambda>(key, df). map (join_cell key) (column_or_nulls name df)) kdfs)"
    if "name \<in> set (columns ?C)" for name
    unfolding index_pd_concat column_or_nulls_pd_concat [OF that]
    by (rule join_cells_per_table [OF wf])
  have new1: "map Some new1 =
      concat (map (\<lambda>(key, df). map (join_cell key) (column_or_nulls rel_path_col df)) kdfs)"
    using n1 joined [OF col_in] by simp
  have idx1: "index c1 = index ?C" and cols1: "columns c1 = columns ?C"
    using c1 by simp_all
  have m1: "map_of (cols c1) name =
      (if name = rel_path_col then Some new1 else map_of (cols ?C) name)" for name
    using c1 col_in by (simp add: map_of_set_column)
  show ?thesis
  proof (cases "''rel_path'' \<in> set (columns ?C)")
    case False
    then have "c2 = c1" using r2 cols1 by simp
    then have "index agg = ?keys" "\<And>name. map_of (cols agg) name = map_of (cols c1) name"
      using agg idx1 index_pd_concat [of kdfs] by simp_all
    then show ?thesis using col new1 m1 False by auto
  next
    case True
    then have r2': "rewrite_paths ''rel_path'' c1 = Inr c2" using r2 cols1 by simp
    obtain new2 where c2: "c2 = set_column ''rel_path'' new2 c1"
      and n2: "map Some new2 = map (\<lambda>(corpus, v). join_cell corpus v)
                 (zip (map fst (index c1)) (column_or_nulls ''rel_path'' c1))"
      using rewrite_paths_ok [OF r2'] by blast
    have same: "column_or_nulls ''rel_path'' c1 = column_or_nulls ''rel_path'' ?C"
      using m1 [of "''rel_path''"] col_ne idx1 by (simp add: column_or_nulls_def cong: option.case_cong)
    have new2: "map Some new2 =
        concat (map (\<lambda>(key, df). map (join_cell key) (column_or_nulls ''rel_path'' df)) kdfs)"
      using n2 same idx1 joined [OF True] by simp
    have m2: "map_of (cols agg) name =
        (if name = ''rel_path'' then Some new2 else map_of (cols c1) name)" for name
      using agg c2 True cols1 by (simp add: map_of_set_column)
    have "index agg = ?keys"
      using agg c2 idx1 index_pd_concat [of kdfs] by simp
    then show ?thesis using col new1 new2 m1 m2 col_ne True by auto
  qed
qed

lemma concat_join_cells:
  "concat (map (\<lambda>(key, df). map (join_cell key) (f df)) kdfs) =
   map (\<lambda>(key, old). join_cell key old) (concat (map (\<lambda>(key, df). map (Pair key) (f df)) kdfs))"
  by (induction kdfs) (auto simp: o_def)

lemma joined_prefixed:
  assumes "map Some new = map (\<lambda>(key, old). join_cell key old) ps"
    and "\<forall>(key, old) \<in> set ps. key \<noteq> [] \<and> last key \<noteq> CHR ''/''"
  shows "list_all2 (\<lambda>(key, old) v. \<exists>rel_path. old = VStr rel_path
            \<and> v = VStr (path_join key rel_path)
            \<and> (take 1 rel_path \<noteq> ''/'' \<longrightarrow> v = VStr (key @ ''/'' @ rel_path))) ps new"
  using assms
proof (induction ps arbitrary: new)
  case Nil
  then show ?case by simp
next
  case (Cons p ps)
  obtain key old where p: "p = (key, old)" by (cases p)
  from Cons.prems(1) obtain v rest where new: "new = v # rest" by (cases new) auto
  have v: "join_cell key old = Some v" and rest: "map Some rest = map (\<lambda>(key, old). join_cell key old) ps"
    using Cons.prems(1) p new by auto
  have key: "key \<noteq> []" "last key \<noteq> CHR ''/''" using Cons.prems(2) p by auto
  from v obtain t where "old = VStr t" "v = VStr (path_join key t)"
    by (auto simp: join_cell_def split: pyval.splits)
  moreover have "take 1 t \<noteq> ''/'' \<Longrightarrow> path_join key t = key @ ''/'' @ t"
    using key by (simp add: path_join_def)
  moreover have "list_all2 (\<lambda>(key, old) v. \<exists>rel_path. old = VStr rel_path
            \<and> v = VStr (path_join key rel_path)
            \<and> (take 1 rel_path \<noteq> ''/'' \<longrightarrow> v = VStr (key @ ''/'' @ rel_path))) ps rest"
    using Cons.IH [OF rest] Cons.prems(2) by simp
  ultimately show ?case using p new by simp
qed

lemma keys_of_pairs:
  "(key, old) \<in> set (concat (map (\<lambda>(key, df). map (Pair key) (f df)) kdfs)) \<Longrightarrow> key \<in> fst ` set kdfs"
  by (induction kdfs) (auto simp: image_iff)

subsection \<open>Relative paths are prefixed with the subdirectory\<close>

text \<open>
  Claim C5. When the tables concatenate and \<open>concat_metadata\<close> returns the aggregated table, the
  relative-path column (the first present of \<open>subdirectory\<close> and \<open>rel_paths\<close>) and the column
  \<open>rel_path\<close>, when it is present, are rewritten row by row: every old value is a text and the new
  value is \<open>os.path.join\<close> of the name of the subdirectory the row was read from and the old
  value. For a relative path, one that does not start with a slash, that is the subdirectory
  name, one slash and the old value: the name is put in front exactly once.
\<close>

theorem rel_paths_prefixed:
  assumes rd: "read_all lib (found_tsvs rdir) = Inr kdfs" and ne: "kdfs \<noteq> []"
    and wf: "\<forall>(key, df) \<in> set kdfs. wf_table df"
    and names: "\<forall>(key, df) \<in> set kdfs. key \<noteq> [] \<and> last key \<noteq> CHR ''/''"
    and ok: "concat_metadata lib rdir = Inr agg"
    and name: "find (\<lambda>col. col \<in> set (columns (pd_concat kdfs))) [''subdirectory'', ''rel_paths'']
                 = Some name
               \<or> name = ''rel_path'' \<and> ''rel_path'' \<in> set (columns (pd_concat kdfs))"
  shows "\<exists>new. map_of (cols agg) name = Some new
           \<and> list_all2 (\<lambda>(key, old) v. \<exists>rel_path. old = VStr rel_path
                 \<and> v = VStr (path_join key rel_path)
                 \<and> (take 1 rel_path \<noteq> ''/'' \<longrightarrow> v = VStr (key @ ''/'' @ rel_path)))
               (concat (map (\<lambda>(key, df). map (Pair key) (column_or_nulls name df)) kdfs)) new"
proof -
  let ?ps = "concat (map (\<lambda>(key, df). map (Pair key) (column_or_nulls name df)) kdfs)"
  note paths = concat_metadata_paths [OF rd ne wf ok]
  have "\<exists>new. map_of (cols agg) name = Some new \<and> map Some new =
          concat (map (\<lambda>(key, df). map (join_cell key) (column_or_nulls name df)) kdfs)"
    using name paths [THEN conjunct2, THEN conjunct1] paths [THEN conjunct2, THEN conjunct2]
    by auto
  then obtain new where m: "map_of (cols agg) name = Some new"
    and n: "map Some new = map (\<lambda>(key, old). join_cell key old) ?ps"
    unfolding concat_join_cells by (elim exE conjE) (rule that)
  have "\<forall>(key, old) \<in> set ?ps. key \<noteq> [] \<and> last key \<noteq> CHR ''/''"
    using names keys_of_pairs [where f = "column_or_nulls name" and kdfs = kdfs] by fastforce
  from joined_prefixed [OF n this] m show ?thesis by (intro exI [of _ new] conjI)
qed

lemma ex_root_read: "read_all sample_pylib (found_tsvs ex_root) = Inr ex_kdfs"
  by code_simp

lemma ex_root_concat: "concat_metadata sample_pylib ex_root = Inr ex_agg"
  by code_simp

lemma ex_kdfs_wf: "\<forall>(key, df) \<in> set ex_kdfs. wf_table df"
  by (simp add: ex_kdfs_def wf_table_def)

lemma ex_kdfs_names: "\<forall>(key, df) \<in> set ex_kdfs. key \<noteq> [] \<and> last key \<noteq> CHR ''/''"
  by (simp add: ex_kdfs_def)

lemma ex_kdfs_path_column:
  "find (\<lambda>col. col \<in> set (columns (pd_concat ex_kdfs))) [''subdirectory'', ''rel_paths'']
     = Some ''subdirectory''"
  by code_simp

lemma ex_kdfs_pairs:
  "concat (map (\<lambda>(key, df). map (Pair key) (column_or_nulls ''subdirectory'' df)) ex_kdfs)
     = [(''a'', VStr ''scores''), (''b'', VStr ''MS3''), (''b'', VStr ''MS3/old'')]"
  by code_simp

theorem rel_paths_prefixed_witness:
  "concat_metadata sample_pylib ex_root = Inr ex_agg
   \<and> map_of (cols ex_agg) ''subdirectory''
       = Some [VStr ''a/scores'', VStr ''b/MS3'', VStr ''b/MS3/old'']"
proof -
  have ne: "ex_kdfs \<noteq> []" by (simp add: ex_kdfs_def)
  from rel_paths_prefixed [OF ex_root_read ne ex_kdfs_wf ex_kdfs_names ex_root_concat
      disjI1 [OF ex_kdfs_path_column]]
  obtain new where m: "map_of (cols ex_agg) ''subdirectory'' = Some new"
    and l: "list_all2 (\<lambda>(key, old) v. \<exists>rel_path. old = VStr rel_path
                 \<and> v = VStr (path_join key rel_path)
                 \<and> (take 1 rel_path \<noteq> ''/'' \<longrightarrow> v = VStr (key @ ''/'' @ rel_path)))
               [(''a'', VStr ''scores''), (''b'', VStr ''MS3''), (''b'', VStr ''MS3/old'')] new"
    unfolding ex_kdfs_pairs by (elim exE conjE) (rule that)
  have "list_all2 (\<lambda>(key, old) v. \<exists>rel_path. old = VStr rel_path
                 \<and> (take 1 rel_path \<noteq> ''/'' \<longrightarrow> v = VStr (key @ ''/'' @ rel_path)))
               [(''a'', VStr ''scores''), (''b'', VStr ''MS3''), (''b'', VStr ''MS3/old'')] new"
    by (rule list_all2_mono [OF l]) auto
  then have "new = [VStr ''a/scores'', VStr ''b/MS3'', VStr ''b/MS3/old'']"
    by (auto simp: list_all2_Cons1)
  with m ex_root_concat show ?thesis by (intro conjI) simp_all
qed

end
